theory Spec2Isabelle
  imports Main "HOL-Library.Word"
begin

section \<open>Data model\<close>

text \<open>
  The development embeds \<^verbatim>\<open>backend/realtime_api.py\<close> (class \<^verbatim>\<open>GeminiLiveSession\<close>) and
  \<^verbatim>\<open>backend/main.py\<close> (class \<^verbatim>\<open>VoiceChatSession\<close> and the coroutine
  \<^verbatim>\<open>voice_chat_endpoint\<close>). asyncio schedules coroutines cooperatively: a coroutine runs
  without interruption from one \<^verbatim>\<open>await\<close> that suspends to the next. Each coroutine is
  therefore a small machine whose locations are its suspension points, and one scheduler
  event runs one coroutine from the location it is suspended at to its next suspension.

  Three facts of asyncio are built in: \<^verbatim>\<open>put\<close> on an unbounded queue does not
  suspend; a cancelled task raises \<^verbatim>\<open>CancelledError\<close> at the \<^verbatim>\<open>await\<close> it is suspended
  in, which \<^verbatim>\<open>except Exception\<close> does not catch; and a poll of an empty queue ends by
  its timeout. A pump suspended in a send resumes at a location of its own, so that every
  other task may run in between; the endpoint's two sends after a \<^verbatim>\<open>start()\<close> are
  joined with the code up to its next wait, which touches nothing another task reads.
  The credential check of the endpoint (lines 113-120) and the broadcast endpoint are
  outside the model.
\<close>

subsection \<open>Python values\<close>

text \<open>\<^verbatim>\<open>bytes\<close> are lists of octets; a Python \<^verbatim>\<open>str\<close> is the list of its code points.\<close>

type_synonym bytes = "8 word list"
type_synonym pystr = "nat list"

text \<open>
  \<^verbatim>\<open>str.isspace\<close> for one code point: the code points CPython classifies as whitespace
  (bidirectional class WS, B or S, or category Zs).
\<close>

definition isspace :: "nat \<Rightarrow> bool" where
  "isspace c \<longleftrightarrow>
     (9 \<le> c \<and> c \<le> 13) \<or> (28 \<le> c \<and> c \<le> 32) \<or> c = 133 \<or> c = 160 \<or> c = 5760 \<or>
     (8192 \<le> c \<and> c \<le> 8202) \<or> c = 8232 \<or> c = 8233 \<or> c = 8239 \<or> c = 8287 \<or> c = 12288"

text \<open>\<^verbatim>\<open>str.strip()\<close>: whitespace removed at both ends.\<close>

definition strip :: "pystr \<Rightarrow> pystr" where
  "strip s = rev (dropWhile isspace (rev (dropWhile isspace s)))"

text \<open>The exceptions the modelled code can raise or meet.\<close>

datatype exn =
    TimeoutError
  | AttributeError
  | TypeError
  | DecodeError
  | SendError

subsection \<open>Upstream server messages\<close>

text \<open>
  The fields of a \<^verbatim>\<open>LiveServerMessage\<close> that \<^verbatim>\<open>_run_session\<close> reads. Every field is
  optional in the upstream library; \<^verbatim>\<open>None\<close> is the Python \<^verbatim>\<open>None\<close>.
\<close>

record transcription =
  t_text :: "pystr option"

record blob =
  data :: "bytes option"

record part =
  inline_data :: "blob option"

record content =
  parts :: "part list option"

record live_server_content =
  input_transcription :: "transcription option"
  output_transcription :: "transcription option"
  model_turn :: "content option"
  turn_complete :: "bool option"

record live_server_message =
  server_content :: "live_server_content option"

subsection \<open>Queue items and client events\<close>

datatype speaker = User | Assistant

text \<open>The dict \<^verbatim>\<open>{"type": ..., "text": ...}\<close> put on the transcript queue.\<close>

record transcript =
  tr_type :: speaker
  tr_text :: pystr

text \<open>
  The JSON objects sent to the client with \<^verbatim>\<open>websocket.send_json\<close>, by their
  \<^verbatim>\<open>type\<close> tag. \<open>AudioDelta d\<close> stands for
  \<^verbatim>\<open>{"type": "response.audio.delta", "delta": b64encode(d)}\<close>.
\<close>

datatype client_event =
    SessionReady
  | Transcript speaker pystr
  | AudioDelta bytes
  | AudioDone
  | SessionResetDone
  | ErrorEvent exn

subsection \<open>Client messages\<close>

text \<open>
  What \<^verbatim>\<open>json.loads\<close> can return for a text frame. Numbers are shown as integers: the
  endpoint does nothing with a number but test it for zero.
\<close>

datatype json =
    JNull
  | JBool bool
  | JNumber int
  | JString string
  | JArray "json list"
  | JObject "(string \<times> json) list"

text \<open>Python truthiness of a decoded JSON value (\<^verbatim>\<open>if audio_data:\<close>).\<close>

fun truthy :: "json \<Rightarrow> bool" where
  "truthy JNull = False"
| "truthy (JBool b) = b"
| "truthy (JNumber n) = (n \<noteq> 0)"
| "truthy (JString s) = (s \<noteq> [])"
| "truthy (JArray xs) = (xs \<noteq> [])"
| "truthy (JObject kvs) = (kvs \<noteq> [])"

text \<open>\<^verbatim>\<open>dict.get(key, default)\<close>; \<^verbatim>\<open>json.loads\<close> keeps the last of duplicate keys.\<close>

definition get :: "(string \<times> json) list \<Rightarrow> string \<Rightarrow> json \<Rightarrow> json" where
  "get kvs k d = (case map_of (rev kvs) k of None \<Rightarrow> d | Some v \<Rightarrow> v)"

section \<open>GeminiLiveSession\<close>

datatype handle = Handle

text \<open>
  The state of the task \<^verbatim>\<open>_session_task\<close> running \<^verbatim>\<open>_run_session\<close>: not created,
  suspended in the connection handshake, suspended in \<^verbatim>\<open>session.receive()\<close>, cancelled
  but not yet resumed, or finished (its \<^verbatim>\<open>finally\<close> block has run).
\<close>

datatype task = NoTask | Connecting | Receiving | Cancelling | Finished

text \<open>
  \<open>realtime_input\<close> logs the blocks handed to \<^verbatim>\<open>session.send_realtime_input\<close>; the
  other fields are the attributes of the class.
\<close>

record gemini_live_session =
  session :: "handle option"
  audio_queue :: "bytes option list"
  transcript_queue :: "transcript list"
  session_task :: task
  is_running_g :: bool
  session_ready :: bool
  realtime_input :: "bytes list"

definition GeminiLiveSession :: gemini_live_session where
  "GeminiLiveSession =
     \<lparr>session = None, audio_queue = [], transcript_queue = [], session_task = NoTask,
      is_running_g = False, session_ready = False, realtime_input = []\<rparr>"

subsection \<open>The receive loop of \<^verbatim>\<open>_run_session\<close>\<close>

text \<open>
  Lines 75-90: one transcription field. The fragment is enqueued, stripped, when
  \<^verbatim>\<open>text and text.strip()\<close> is truthy.
\<close>

definition put_transcript ::
  "speaker \<Rightarrow> transcription option \<Rightarrow> gemini_live_session \<Rightarrow> gemini_live_session" where
  "put_transcript who tr g =
     (case tr of
        None \<Rightarrow> g
      | Some t \<Rightarrow>
          (case t_text t of
             None \<Rightarrow> g
           | Some s \<Rightarrow>
               if s \<noteq> [] \<and> strip s \<noteq> []
               then g\<lparr>transcript_queue :=
                        transcript_queue g @ [\<lparr>tr_type = who, tr_text = strip s\<rparr>]\<rparr>
               else g))"

text \<open>Lines 93-96: the audio parts of the model turn, in order.\<close>

fun inline_audio :: "part list \<Rightarrow> bytes option list" where
  "inline_audio [] = []"
| "inline_audio (p # ps) =
     (case inline_data p of
        None \<Rightarrow> inline_audio ps
      | Some b \<Rightarrow>
          (case data b of
             None \<Rightarrow> inline_audio ps
           | Some d \<Rightarrow> if d \<noteq> [] then Some d # inline_audio ps else inline_audio ps))"

definition put_audio :: "content option \<Rightarrow> gemini_live_session \<Rightarrow> gemini_live_session" where
  "put_audio mt g =
     (case mt of
        None \<Rightarrow> g
      | Some c \<Rightarrow>
          (case parts c of
             None \<Rightarrow> g
           | Some ps \<Rightarrow> g\<lparr>audio_queue := audio_queue g @ inline_audio ps\<rparr>))"

text \<open>Lines 99-100: the turn-complete sentinel \<^verbatim>\<open>None\<close>.\<close>

definition put_turn_complete ::
  "bool option \<Rightarrow> gemini_live_session \<Rightarrow> gemini_live_session" where
  "put_turn_complete tc g =
     (if tc = Some True then g\<lparr>audio_queue := audio_queue g @ [None]\<rparr> else g)"

text \<open>Lines 108-110: the \<^verbatim>\<open>finally\<close> block of \<^verbatim>\<open>_run_session\<close>.\<close>

definition run_session_finally :: "gemini_live_session \<Rightarrow> gemini_live_session" where
  "run_session_finally g = g\<lparr>session := None, session_ready := False, session_task := Finished\<rparr>"

text \<open>
  Lines 67-100: one iteration of \<^verbatim>\<open>async for response in session.receive()\<close>. The two
  queues are unbounded, so \<^verbatim>\<open>put\<close> never suspends and the iteration is atomic.
\<close>

definition run_session_response ::
  "live_server_message \<Rightarrow> gemini_live_session \<Rightarrow> gemini_live_session" where
  "run_session_response response g =
     (if \<not> is_running_g g then run_session_finally g
      else
        (case server_content response of
           None \<Rightarrow> g
         | Some c \<Rightarrow>
             put_turn_complete (turn_complete c)
               (put_audio (model_turn c)
                 (put_transcript Assistant (output_transcription c)
                   (put_transcript User (input_transcription c) g)))))"

subsection \<open>connect, send_audio, close\<close>

text \<open>
  Lines 114-115 of \<^verbatim>\<open>connect\<close>, up to the suspension in \<^verbatim>\<open>wait_for\<close>: the flag is set
  and the session task is created.
\<close>

definition connect_begin :: "gemini_live_session \<Rightarrow> gemini_live_session" where
  "connect_begin g = g\<lparr>is_running_g := True, session_task := Connecting\<rparr>"

text \<open>Lines 59-64 of the session task: the handshake completes.\<close>

definition handshake_done :: "gemini_live_session \<Rightarrow> gemini_live_session" where
  "handshake_done g =
     (if session_task g = Connecting
      then g\<lparr>session := Some Handle, session_ready := True, session_task := Receiving\<rparr>
      else g)"

text \<open>
  Lines 104-110 of the session task: the handshake, or the receive iterator, raises or
  ends; the exception is printed and the \<^verbatim>\<open>finally\<close> block runs.
\<close>

definition session_ends :: "gemini_live_session \<Rightarrow> gemini_live_session" where
  "session_ends g =
     (if session_task g = Connecting \<or> session_task g = Receiving
      then run_session_finally g else g)"

text \<open>
  What the upstream does with the handshake of one \<^verbatim>\<open>connect\<close>, in milliseconds from
  the call: it completes, it fails, or it stays pending for good.
\<close>

datatype handshake = CompletesAfter nat | FailsAfter nat | Pending

definition connect_timeout :: nat where
  "connect_timeout = 30000"

text \<open>
  \<^verbatim>\<open>connect\<close> as a whole (lines 112-117). \<^verbatim>\<open>wait_for\<close> raises \<^verbatim>\<open>TimeoutError\<close> when
  the ready event was not set within 30 s; it cancels only the wait on the event, never
  the session task. The raise does not come with the timer: \<open>lag\<close> is the time from the
  firing of the timer to the raise in \<^verbatim>\<open>connect\<close>, in which the event loop runs other
  tasks. A handshake that completes in that time sets the handle and enters the receive
  loop, and \<^verbatim>\<open>connect\<close> raises all the same; one that fails by then has run the
  \<^verbatim>\<open>finally\<close> block.
\<close>

definition connect ::
  "handshake \<Rightarrow> nat \<Rightarrow> gemini_live_session \<Rightarrow> exn option \<times> gemini_live_session" where
  "connect h lag g =
     (let g1 = connect_begin g in
      case h of
        CompletesAfter ms \<Rightarrow>
          if ms \<le> connect_timeout then (None, handshake_done g1)
          else if ms \<le> connect_timeout + lag then (Some TimeoutError, handshake_done g1)
          else (Some TimeoutError, g1)
      | FailsAfter ms \<Rightarrow>
          if ms \<le> connect_timeout + lag then (Some TimeoutError, session_ends g1)
          else (Some TimeoutError, g1)
      | Pending \<Rightarrow> (Some TimeoutError, g1))"

text \<open>
  \<^verbatim>\<open>send_audio\<close> (lines 119-131). \<open>b64decode\<close> is \<^verbatim>\<open>base64.b64decode\<close> on a
  \<^verbatim>\<open>str\<close>, \<open>None\<close> where it raises; on a value that is not a \<^verbatim>\<open>str\<close> it raises
  \<^verbatim>\<open>TypeError\<close>. The upstream call \<^verbatim>\<open>send_realtime_input\<close> is taken to return.
\<close>

definition send_audio ::
  "(string \<Rightarrow> bytes option) \<Rightarrow> json \<Rightarrow> gemini_live_session \<Rightarrow> exn option \<times> gemini_live_session" where
  "send_audio b64decode audio_base64 g =
     (if session g \<noteq> None \<and> is_running_g g
      then
        (case audio_base64 of
           JString s \<Rightarrow>
             (case b64decode s of
                None \<Rightarrow> (Some DecodeError, g)
              | Some audio_bytes \<Rightarrow>
                  (None, g\<lparr>realtime_input := realtime_input g @ [audio_bytes]\<rparr>))
         | _ \<Rightarrow> (Some TypeError, g))
      else (None, g))"

text \<open>
  \<^verbatim>\<open>close\<close> (lines 170-178) in two halves. First the flag is cleared and a task that is
  not done is cancelled; then \<^verbatim>\<open>await self._session_task\<close> returns once the cancelled
  task has run its \<^verbatim>\<open>finally\<close> block. \<^verbatim>\<open>_run_session\<close> swallows the cancellation.
\<close>

definition close_begin :: "gemini_live_session \<Rightarrow> gemini_live_session" where
  "close_begin g =
     (let g1 = g\<lparr>is_running_g := False\<rparr> in
      if session_task g1 = Connecting \<or> session_task g1 = Receiving
      then g1\<lparr>session_task := Cancelling\<rparr> else g1)"

definition close_end :: "gemini_live_session \<Rightarrow> gemini_live_session" where
  "close_end g = (if session_task g = Cancelling then run_session_finally g else g)"

definition close :: "gemini_live_session \<Rightarrow> gemini_live_session" where
  "close g = close_end (close_begin g)"

section \<open>VoiceChatSession\<close>

text \<open>
  Where a pump task (\<^verbatim>\<open>_handle_transcripts\<close>, \<^verbatim>\<open>_handle_audio\<close>) is suspended:
  not created; at the head of its own loop (just created, or suspended in
  \<^verbatim>\<open>send_json\<close> or \<^verbatim>\<open>sleep\<close> with the loop test next); the audio pump inside
  \<^verbatim>\<open>get_audio_chunks\<close> after a delta was sent; in the queue poll
  \<^verbatim>\<open>wait_for(queue.get(), 0.1)\<close>; returned; ended by an exception; cancelled.
\<close>

datatype pump = NotCreated | AtLoop | AtChunks | AtPoll | Returned | Raised | Cancelled

text \<open>
  \<open>transcript_task\<close> and \<open>audio_task\<close> are the two tasks of \<^verbatim>\<open>process_responses\<close>; the
  endpoint's \<^verbatim>\<open>response_task\<close> awaits their \<^verbatim>\<open>gather\<close>.
\<close>

record voice_chat_session =
  gemini :: gemini_live_session
  is_running :: bool
  transcript_task :: pump
  audio_task :: pump

definition VoiceChatSession :: voice_chat_session where
  "VoiceChatSession =
     \<lparr>gemini = GeminiLiveSession, is_running = False,
      transcript_task = NotCreated, audio_task = NotCreated\<rparr>"

subsection \<open>start, stop, process_audio\<close>

definition start_begin :: "voice_chat_session \<Rightarrow> voice_chat_session" where
  "start_begin v = v\<lparr>gemini := connect_begin (gemini v)\<rparr>"

definition start_end :: "voice_chat_session \<Rightarrow> voice_chat_session" where
  "start_end v = v\<lparr>is_running := True\<rparr>"

text \<open>\<^verbatim>\<open>start\<close> as a whole (lines 49-52): the flag is set only when \<^verbatim>\<open>connect\<close> returned.\<close>

definition start ::
  "handshake \<Rightarrow> nat \<Rightarrow> voice_chat_session \<Rightarrow> exn option \<times> voice_chat_session" where
  "start h lag v =
     (case connect h lag (gemini v) of
        (Some e, g) \<Rightarrow> (Some e, v\<lparr>gemini := g\<rparr>)
      | (None, g) \<Rightarrow> (None, start_end (v\<lparr>gemini := g\<rparr>)))"

text \<open>
  \<^verbatim>\<open>stop\<close> (lines 54-57): both flags are cleared and the session task is cancelled
  before the first suspension; the second half is the return of \<^verbatim>\<open>close\<close>.
\<close>

definition stop_begin :: "voice_chat_session \<Rightarrow> voice_chat_session" where
  "stop_begin v = v\<lparr>is_running := False, gemini := close_begin (gemini v)\<rparr>"

definition stop_end :: "voice_chat_session \<Rightarrow> voice_chat_session" where
  "stop_end v = v\<lparr>gemini := close_end (gemini v)\<rparr>"

definition stop :: "voice_chat_session \<Rightarrow> voice_chat_session" where
  "stop v = stop_end (stop_begin v)"

definition process_audio ::
  "(string \<Rightarrow> bytes option) \<Rightarrow> json \<Rightarrow> voice_chat_session \<Rightarrow> exn option \<times> voice_chat_session" where
  "process_audio b64decode audio_base64 v =
     (case send_audio b64decode audio_base64 (gemini v) of (r, g) \<Rightarrow> (r, v\<lparr>gemini := g\<rparr>))"

text \<open>A sequence of calls of \<^verbatim>\<open>process_audio\<close>; the first exception ends it.\<close>

fun process_audio_all ::
  "(string \<Rightarrow> bytes option) \<Rightarrow> json list \<Rightarrow> voice_chat_session \<Rightarrow> exn option \<times> voice_chat_session" where
  "process_audio_all b64decode [] v = (None, v)"
| "process_audio_all b64decode (a # as) v =
     (case process_audio b64decode a v of
        (Some e, v') \<Rightarrow> (Some e, v')
      | (None, v') \<Rightarrow> process_audio_all b64decode as v')"

subsection \<open>The transcript pump\<close>

text \<open>
  Every pump function takes \<open>connected\<close>, whether the client socket is open
  (\<^verbatim>\<open>send_json\<close> raises when it is not), and returns the events it sent.
\<close>

text \<open>Line 158, the loop test of \<^verbatim>\<open>get_transcripts\<close>, then the poll.\<close>

definition get_transcripts :: "voice_chat_session \<Rightarrow> voice_chat_session" where
  "get_transcripts v =
     (if is_running_g (gemini v) then v\<lparr>transcript_task := AtPoll\<rparr>
      else v\<lparr>transcript_task := Returned\<rparr>)"

text \<open>
  \<^verbatim>\<open>_handle_transcripts\<close> (lines 74-84) resumed at its suspension point. An empty queue
  is the poll timeout. An exception of \<^verbatim>\<open>send_json\<close> is not caught and ends the task.
\<close>

definition handle_transcripts ::
  "bool \<Rightarrow> voice_chat_session \<Rightarrow> client_event list \<times> voice_chat_session" where
  "handle_transcripts connected v =
     (case transcript_task v of
        AtLoop \<Rightarrow> ([], get_transcripts v)
      | AtPoll \<Rightarrow>
          (case transcript_queue (gemini v) of
             [] \<Rightarrow> ([], get_transcripts v)
           | t # q \<Rightarrow>
               (let v1 = v\<lparr>gemini := (gemini v)\<lparr>transcript_queue := q\<rparr>\<rparr> in
                if \<not> is_running v1 then ([], v1\<lparr>transcript_task := Returned\<rparr>)
                else if connected
                then ([Transcript (tr_type t) (tr_text t)], v1\<lparr>transcript_task := AtLoop\<rparr>)
                else ([], v1\<lparr>transcript_task := Raised\<rparr>)))
      | _ \<Rightarrow> ([], v))"

subsection \<open>The audio pump\<close>

text \<open>
  Lines 91-98 of \<^verbatim>\<open>_handle_audio\<close>: \<^verbatim>\<open>get_audio_chunks\<close> has returned and
  \<^verbatim>\<open>audio.done\<close> is sent. When the send raises, the pump leaves if the session is not
  running and otherwise sleeps and returns to its loop test.
\<close>

definition audio_done :: "bool \<Rightarrow> voice_chat_session \<Rightarrow> client_event list \<times> voice_chat_session" where
  "audio_done connected v =
     (if connected then ([AudioDone], v\<lparr>audio_task := AtLoop\<rparr>)
      else if \<not> is_running v then ([], v\<lparr>audio_task := Returned\<rparr>)
      else ([], v\<lparr>audio_task := AtLoop\<rparr>))"

text \<open>Line 138, the loop test of \<^verbatim>\<open>get_audio_chunks\<close>, then the poll.\<close>

definition get_audio_chunks ::
  "bool \<Rightarrow> voice_chat_session \<Rightarrow> client_event list \<times> voice_chat_session" where
  "get_audio_chunks connected v =
     (if is_running_g (gemini v) then ([], v\<lparr>audio_task := AtPoll\<rparr>)
      else audio_done connected v)"

text \<open>
  \<^verbatim>\<open>_handle_audio\<close> (lines 86-98) with \<^verbatim>\<open>get_audio_chunks\<close> (lines 133-151), resumed
  at its suspension point. In the poll, an empty queue is the timeout, \<open>None\<close> is the
  sentinel, and an exception of the callback leaves the loop of \<^verbatim>\<open>get_audio_chunks\<close>.
\<close>

definition handle_audio ::
  "bool \<Rightarrow> voice_chat_session \<Rightarrow> client_event list \<times> voice_chat_session" where
  "handle_audio connected v =
     (case audio_task v of
        AtLoop \<Rightarrow>
          if is_running v then get_audio_chunks connected v
          else ([], v\<lparr>audio_task := Returned\<rparr>)
      | AtChunks \<Rightarrow> get_audio_chunks connected v
      | AtPoll \<Rightarrow>
          (case audio_queue (gemini v) of
             [] \<Rightarrow> get_audio_chunks connected v
           | audio_data # q \<Rightarrow>
               (let v1 = v\<lparr>gemini := (gemini v)\<lparr>audio_queue := q\<rparr>\<rparr> in
                case audio_data of
                  None \<Rightarrow> audio_done connected v1
                | Some d \<Rightarrow>
                    if connected then ([AudioDelta d], v1\<lparr>audio_task := AtChunks\<rparr>)
                    else audio_done connected v1))
      | _ \<Rightarrow> ([], v))"

subsection \<open>process_responses and its cancellation\<close>

text \<open>Lines 66-67: the two pump tasks are created.\<close>

definition process_responses :: "voice_chat_session \<Rightarrow> voice_chat_session" where
  "process_responses v = v\<lparr>transcript_task := AtLoop, audio_task := AtLoop\<rparr>"

text \<open>
  \<^verbatim>\<open>response_task.cancel()\<close>: the cancellation reaches both pumps through
  \<^verbatim>\<open>gather\<close>, and a cancelled pump raises \<^verbatim>\<open>CancelledError\<close> where it is suspended,
  which no handler of the pumps catches. When the transcript pump has ended by an
  exception, \<^verbatim>\<open>gather\<close> has already passed it on, the response task is done and the
  cancellation does nothing.
\<close>

definition cancel_pump :: "pump \<Rightarrow> pump" where
  "cancel_pump p = (if p = AtLoop \<or> p = AtChunks \<or> p = AtPoll then Cancelled else p)"

definition cancel_responses :: "voice_chat_session \<Rightarrow> voice_chat_session" where
  "cancel_responses v =
     (if transcript_task v = Raised then v
      else v\<lparr>transcript_task := cancel_pump (transcript_task v),
              audio_task := cancel_pump (audio_task v)\<rparr>)"

section \<open>The endpoint \<^verbatim>\<open>voice_chat_endpoint\<close>\<close>

subsection \<open>Dispatch of one decoded client message\<close>

text \<open>
  Lines 139-155 up to the calls they make: \<open>Append d\<close> is the call
  \<^verbatim>\<open>session.process_audio(d)\<close>, \<open>Reset\<close> the reset branch, \<open>Ignore\<close> no call at
  all. On a JSON value that is not an object, \<^verbatim>\<open>message.get\<close> raises
  \<^verbatim>\<open>AttributeError\<close>.
\<close>

datatype request = Append json | Reset | Ignore

definition dispatch :: "json \<Rightarrow> exn + request" where
  "dispatch message =
     (case message of
        JObject kvs \<Rightarrow>
          (let msg_type = get kvs ''type'' (JString '''') in
           if msg_type = JString ''input_audio_buffer.append''
           then
             (let audio_data = get kvs ''delta'' (JString '''') in
              if truthy audio_data then Inr (Append audio_data) else Inr Ignore)
           else if msg_type = JString ''session.reset'' then Inr Reset
           else Inr Ignore)
      | _ \<Rightarrow> Inl AttributeError)"

subsection \<open>The state of one client connection\<close>

text \<open>
  Where the endpoint coroutine is suspended: in \<^verbatim>\<open>session.start()\<close> of line 125 (with
  whether the ready event has woken it), in \<^verbatim>\<open>receive_json\<close> of line 138, in
  \<^verbatim>\<open>session.stop()\<close> of line 148, in \<^verbatim>\<open>session.start()\<close> of line 150, in
  \<^verbatim>\<open>session.stop()\<close> of line 170, or returned.
\<close>

datatype endpoint = Starting bool | Receive | ResetStopping | ResetStarting bool | Stopping | Done

text \<open>
  Who sent a client event: the endpoint while its variable \<^verbatim>\<open>session\<close> was bound to the
  \<open>n\<close>-th session object, or a pump of the \<open>n\<close>-th session object.
\<close>

datatype origin = Endpoint nat | TranscriptTask nat | AudioTask nat

text \<open>
  The observable actions of a run, in order: a client event handed to the open socket;
  the receive loop of session \<open>n\<close> putting at least one item on a queue; \<^verbatim>\<open>start()\<close> of
  session \<open>n\<close> returning; the response task of session \<open>n\<close> being cancelled.
\<close>

datatype obs =
    Sent origin client_event
  | Put nat
  | Started nat
  | ResponsesCancelled nat

text \<open>
  \<open>sessions n\<close> is the \<open>n\<close>-th \<^verbatim>\<open>VoiceChatSession\<close> object constructed on the
  connection (an object not yet constructed is shown as a fresh one), \<open>current\<close> the
  index the variable \<^verbatim>\<open>session\<close> is bound to, \<open>response_task\<close> the session whose
  \<^verbatim>\<open>process_responses\<close> task the variable \<^verbatim>\<open>response_task\<close> holds, \<open>connected\<close>
  whether the client socket is open.
\<close>

record world =
  sessions :: "nat \<Rightarrow> voice_chat_session"
  current :: nat
  response_task :: "nat option"
  endpoint :: endpoint
  connected :: bool
  trace :: "obs list"

definition upd :: "nat \<Rightarrow> (voice_chat_session \<Rightarrow> voice_chat_session) \<Rightarrow> world \<Rightarrow> world" where
  "upd n f w = w\<lparr>sessions := (sessions w)(n := f (sessions w n))\<rparr>"

definition upd_gemini ::
  "nat \<Rightarrow> (gemini_live_session \<Rightarrow> gemini_live_session) \<Rightarrow> world \<Rightarrow> world" where
  "upd_gemini n f w = upd n (\<lambda>v. v\<lparr>gemini := f (gemini v)\<rparr>) w"

text \<open>
  \<^verbatim>\<open>websocket.send_json\<close>: the event is handed to the socket when it is open; otherwise
  the call raises. The result says whether it returned.
\<close>

definition send_json :: "origin \<Rightarrow> client_event \<Rightarrow> world \<Rightarrow> bool \<times> world" where
  "send_json who e w =
     (if connected w then (True, w\<lparr>trace := trace w @ [Sent who e]\<rparr>) else (False, w))"

subsection \<open>The endpoint, from suspension to suspension\<close>

text \<open>
  Lines 111-125 with the credential present: the socket is accepted, the first session
  object is constructed and \<^verbatim>\<open>start()\<close> is suspended in \<^verbatim>\<open>connect\<close>.
\<close>

definition voice_chat_endpoint :: world where
  "voice_chat_endpoint =
     \<lparr>sessions = (\<lambda>n. VoiceChatSession)(0 := start_begin VoiceChatSession),
      current = 0, response_task = None, endpoint = Starting False,
      connected = True, trace = []\<rparr>"

text \<open>Line 170, the \<^verbatim>\<open>finally\<close> block, up to its suspension in \<^verbatim>\<open>close\<close>.\<close>

definition final_stop :: "world \<Rightarrow> world" where
  "final_stop w = (upd (current w) stop_begin w)\<lparr>endpoint := Stopping\<rparr>"

text \<open>
  Lines 162-170: an exception reaches the outer handler, the error event is sent (an
  exception of that send leaves the handler) and the \<^verbatim>\<open>finally\<close> block runs.
\<close>

definition fail :: "exn \<Rightarrow> world \<Rightarrow> world" where
  "fail e w = final_stop (snd (send_json (Endpoint (current w)) (ErrorEvent e) w))"

text \<open>Lines 125-133: \<^verbatim>\<open>start()\<close> has returned.\<close>

definition started :: "world \<Rightarrow> world" where
  "started w =
     (let n = current w;
          w1 = (upd n start_end w)\<lparr>trace := trace w @ [Started n]\<rparr>;
          (ok, w2) = send_json (Endpoint n) SessionReady w1
      in if ok
         then (upd n process_responses w2)\<lparr>response_task := Some n, endpoint := Receive\<rparr>
         else fail SendError w2)"

text \<open>Line 148 up to the suspension of \<^verbatim>\<open>stop\<close> in \<^verbatim>\<open>close\<close>.\<close>

definition reset_stop :: "world \<Rightarrow> world" where
  "reset_stop w = (upd (current w) stop_begin w)\<lparr>endpoint := ResetStopping\<rparr>"

text \<open>
  Lines 148-150: \<^verbatim>\<open>stop\<close> returns, a new session object is constructed and bound to
  \<^verbatim>\<open>session\<close>, and its \<^verbatim>\<open>start()\<close> is suspended in \<^verbatim>\<open>connect\<close>.
\<close>

definition reset_start :: "world \<Rightarrow> world" where
  "reset_start w =
     (let w1 = upd (current w) stop_end w; n = Suc (current w)
      in w1\<lparr>sessions := (sessions w1)(n := start_begin VoiceChatSession),
             current := n, endpoint := ResetStarting False\<rparr>)"

text \<open>
  Lines 150-155: \<^verbatim>\<open>start()\<close> of the new session has returned; the old response task is
  cancelled, the new one is created and \<^verbatim>\<open>session.reset.done\<close> is sent.
\<close>

definition reset_done :: "world \<Rightarrow> world" where
  "reset_done w =
     (let n = current w;
          w1 = (upd n start_end w)\<lparr>trace := trace w @ [Started n]\<rparr>;
          w2 = (case response_task w1 of
                  None \<Rightarrow> w1
                | Some m \<Rightarrow> (upd m cancel_responses w1)\<lparr>trace := trace w1 @ [ResponsesCancelled m]\<rparr>);
          w3 = (upd n process_responses w2)\<lparr>response_task := Some n\<rparr>;
          (ok, w4) = send_json (Endpoint n) SessionResetDone w3
      in if ok then w4\<lparr>endpoint := Receive\<rparr> else fail SendError w4)"

text \<open>Lines 139-155 for one decoded message.\<close>

definition on_message :: "(string \<Rightarrow> bytes option) \<Rightarrow> json \<Rightarrow> world \<Rightarrow> world" where
  "on_message b64decode message w =
     (case dispatch message of
        Inl e \<Rightarrow> fail e w
      | Inr Ignore \<Rightarrow> w
      | Inr Reset \<Rightarrow> reset_stop w
      | Inr (Append audio_data) \<Rightarrow>
          (case process_audio b64decode audio_data (sessions w (current w)) of
             (Some e, v) \<Rightarrow> fail e (upd (current w) (\<lambda>_. v) w)
           | (None, v) \<Rightarrow> upd (current w) (\<lambda>_. v) w))"

text \<open>Line 170 returns and the endpoint ends.\<close>

definition finish :: "world \<Rightarrow> world" where
  "finish w = (upd (current w) stop_end w)\<lparr>endpoint := Done\<rparr>"

subsection \<open>The background tasks\<close>

text \<open>The handshake of session \<open>n\<close> completes; the ready event wakes the waiting endpoint.\<close>

definition on_handshake :: "nat \<Rightarrow> world \<Rightarrow> world" where
  "on_handshake n w =
     (if session_task (gemini (sessions w n)) = Connecting
      then
        (let w1 = upd_gemini n handshake_done w in
         if n = current w
         then
           (case endpoint w of
              Starting _ \<Rightarrow> w1\<lparr>endpoint := Starting True\<rparr>
            | ResetStarting _ \<Rightarrow> w1\<lparr>endpoint := ResetStarting True\<rparr>
            | _ \<Rightarrow> w1)
         else w1)
      else w)"

text \<open>The receive loop of session \<open>n\<close> gets one response.\<close>

definition on_response :: "nat \<Rightarrow> live_server_message \<Rightarrow> world \<Rightarrow> world" where
  "on_response n r w =
     (let g = gemini (sessions w n) in
      if session_task g = Receiving
      then
        (let g1 = run_session_response r g; w1 = upd_gemini n (\<lambda>_. g1) w in
         if audio_queue g1 = audio_queue g \<and> transcript_queue g1 = transcript_queue g
         then w1 else w1\<lparr>trace := trace w1 @ [Put n]\<rparr>)
      else w)"

text \<open>A pump of session \<open>n\<close> is resumed.\<close>

definition resume_transcripts :: "nat \<Rightarrow> world \<Rightarrow> world" where
  "resume_transcripts n w =
     (case handle_transcripts (connected w) (sessions w n) of
        (es, v) \<Rightarrow> (upd n (\<lambda>_. v) w)\<lparr>trace := trace w @ map (Sent (TranscriptTask n)) es\<rparr>)"

definition resume_audio :: "nat \<Rightarrow> world \<Rightarrow> world" where
  "resume_audio n w =
     (case handle_audio (connected w) (sessions w n) of
        (es, v) \<Rightarrow> (upd n (\<lambda>_. v) w)\<lparr>trace := trace w @ map (Sent (AudioTask n)) es\<rparr>)"

subsection \<open>Schedules\<close>

text \<open>
  What the event loop can do next: complete the handshake of a session, end a session
  task by an upstream error or close, deliver a server response to a receive loop,
  resume a pump, deliver a decoded client frame, a frame that is not JSON or the
  disconnect to \<^verbatim>\<open>receive_json\<close>, resume the endpoint from \<^verbatim>\<open>start\<close> or \<^verbatim>\<open>stop\<close>,
  raise the timeout in the \<^verbatim>\<open>connect\<close> the endpoint waits in, or lose the client
  socket. An event that is not enabled leaves the state as it is. The timeout is enabled
  whether or not the handshake has completed: the timer may have fired before a
  handshake that completed before the raise.
\<close>

datatype event =
    Handshake nat
  | SessionEnds nat
  | Response nat live_server_message
  | TranscriptPump nat
  | AudioPump nat
  | Frame json
  | BadFrame
  | Disconnect
  | Resume
  | Timeout
  | ClientGone

definition step :: "(string \<Rightarrow> bytes option) \<Rightarrow> event \<Rightarrow> world \<Rightarrow> world" where
  "step b64decode ev w =
     (case ev of
        Handshake n \<Rightarrow> on_handshake n w
      | SessionEnds n \<Rightarrow> upd_gemini n session_ends w
      | Response n r \<Rightarrow> on_response n r w
      | TranscriptPump n \<Rightarrow> resume_transcripts n w
      | AudioPump n \<Rightarrow> resume_audio n w
      | Frame message \<Rightarrow>
          if endpoint w = Receive \<and> connected w then on_message b64decode message w else w
      | BadFrame \<Rightarrow> w
      | Disconnect \<Rightarrow>
          if endpoint w = Receive then final_stop (w\<lparr>connected := False\<rparr>) else w
      | Resume \<Rightarrow>
          (case endpoint w of
             Starting True \<Rightarrow> started w
           | ResetStopping \<Rightarrow> reset_start w
           | ResetStarting True \<Rightarrow> reset_done w
           | Stopping \<Rightarrow> finish w
           | _ \<Rightarrow> w)
      | Timeout \<Rightarrow>
          (case endpoint w of
             Starting _ \<Rightarrow> fail TimeoutError w
           | ResetStarting _ \<Rightarrow> fail TimeoutError w
           | _ \<Rightarrow> w)
      | ClientGone \<Rightarrow> w\<lparr>connected := False\<rparr>)"

fun run :: "(string \<Rightarrow> bytes option) \<Rightarrow> event list \<Rightarrow> world \<Rightarrow> world" where
  "run b64decode [] w = w"
| "run b64decode (ev # evs) w = run b64decode evs (step b64decode ev w)"

text \<open>The client events handed to the socket, in order.\<close>

fun sent :: "obs list \<Rightarrow> client_event list" where
  "sent [] = []"
| "sent (Sent who e # tr) = e # sent tr"
| "sent (_ # tr) = sent tr"

section \<open>Vocabulary of the properties\<close>

text \<open>
  The transcription fragments a server message carries, with the speaker the receive loop
  gives each, and the fragments of all the responses of a schedule.
\<close>

definition fragment :: "speaker \<Rightarrow> transcription option \<Rightarrow> (speaker \<times> pystr) list" where
  "fragment who tr =
     (case tr of
        None \<Rightarrow> []
      | Some t \<Rightarrow> (case t_text t of None \<Rightarrow> [] | Some s \<Rightarrow> [(who, s)]))"

definition fragments_of :: "live_server_message \<Rightarrow> (speaker \<times> pystr) list" where
  "fragments_of r =
     (case server_content r of
        None \<Rightarrow> []
      | Some c \<Rightarrow>
          fragment User (input_transcription c) @ fragment Assistant (output_transcription c))"

fun fragments :: "event list \<Rightarrow> (speaker \<times> pystr) list" where
  "fragments [] = []"
| "fragments (Response n r # evs) = fragments_of r @ fragments evs"
| "fragments (_ # evs) = fragments evs"

text \<open>A text that is empty or has whitespace only.\<close>

definition whitespace_only :: "pystr \<Rightarrow> bool" where
  "whitespace_only s = list_all isspace s"




text \<open>
  A session task that has not finished, and a session object that still has such a task
  or a connection handle.
\<close>

definition task_running :: "task \<Rightarrow> bool" where
  "task_running t = (t = Connecting \<or> t = Receiving \<or> t = Cancelling)"

definition dangling :: "gemini_live_session \<Rightarrow> bool" where
  "dangling g = (task_running (session_task g) \<or> session g = Some Handle)"



text \<open>\<open>precedes a b tr\<close>: no \<open>b\<close> stands in \<open>tr\<close> before the first \<open>a\<close>.\<close>

fun precedes :: "obs \<Rightarrow> obs \<Rightarrow> obs list \<Rightarrow> bool" where
  "precedes a b [] = True"
| "precedes a b (x # tr) = (if x = a then True else x \<noteq> b \<and> precedes a b tr)"

text \<open>
  \<open>stale n ob\<close>: \<open>ob\<close> is a client event sent by a pump of a session older than \<open>n\<close>.
  \<open>reset_clean tr\<close>: after a \<^verbatim>\<open>session.reset.done\<close> sent for session \<open>n\<close>, no stale event
  follows.
\<close>

fun pump_of :: "obs \<Rightarrow> nat option" where
  "pump_of (Sent (TranscriptTask m) e) = Some m"
| "pump_of (Sent (AudioTask m) e) = Some m"
| "pump_of _ = None"

definition stale :: "nat \<Rightarrow> obs \<Rightarrow> bool" where
  "stale n ob = (case pump_of ob of None \<Rightarrow> False | Some m \<Rightarrow> m < n)"

fun reset_of :: "obs \<Rightarrow> nat option" where
  "reset_of (Sent (Endpoint n) SessionResetDone) = Some n"
| "reset_of _ = None"

fun reset_clean :: "obs list \<Rightarrow> bool" where
  "reset_clean [] = True"
| "reset_clean (ob # tr) =
     ((case reset_of ob of None \<Rightarrow> True | Some n \<Rightarrow> \<not> list_ex (stale n) tr) \<and> reset_clean tr)"

text \<open>
  The transcripts the receive loop puts on the queue for a list of fragments: those
  fragments whose text passes the test of lines 77 and 86, stripped.
\<close>

definition enqueued :: "(speaker \<times> pystr) list \<Rightarrow> (speaker \<times> pystr) list" where
  "enqueued fs =
     map (\<lambda>(sp, s). (sp, strip s)) (filter (\<lambda>(sp, s). s \<noteq> [] \<and> strip s \<noteq> []) fs)"

text \<open>
  The invariant behind the transcript properties: every transcript waiting on a queue of
  any session, and every transcript event sent so far, is in \<open>enqueued fs\<close>.
\<close>

definition transcripts_from :: "(speaker \<times> pystr) list \<Rightarrow> world \<Rightarrow> bool" where
  "transcripts_from fs w \<longleftrightarrow>
     (\<forall>n. \<forall>t\<in>set (transcript_queue (gemini (sessions w n))).
        (tr_type t, tr_text t) \<in> set (enqueued fs)) \<and>
     (\<forall>who sp txt. Sent who (Transcript sp txt) \<in> set (trace w) \<longrightarrow>
        (sp, txt) \<in> set (enqueued fs))"



text \<open>
  The invariant behind the reset property. A pump that is \<open>dead\<close> never runs code of its
  coroutine again; session \<open>m\<close> is \<open>quiet\<close> when its pumps can send nothing more: they
  are dead, or the socket is closed. The response task variable names a session that
  exists, every older session is quiet, the variable names the current session while the
  endpoint receives or begins a reset and the previous one while the start of a reset
  is awaited, the first start is that of the first session, a transcript pump fails only on a closed socket, and every
  \<^verbatim>\<open>session.reset.done\<close> sent so far is for a session no younger than the one the
  response task variable names.
\<close>

definition dead :: "pump \<Rightarrow> bool" where
  "dead p = (p = NotCreated \<or> p = Returned \<or> p = Raised \<or> p = Cancelled)"

definition quiet :: "nat \<Rightarrow> world \<Rightarrow> bool" where
  "quiet m w \<longleftrightarrow>
     (connected w \<longrightarrow>
        dead (transcript_task (sessions w m)) \<and> dead (audio_task (sessions w m)))"

definition reset_inv :: "world \<Rightarrow> bool" where
  "reset_inv w \<longleftrightarrow>
     (\<forall>k. response_task w = Some k \<longrightarrow> k \<le> current w \<and> (\<forall>m<k. quiet m w)) \<and>
     (endpoint w = Receive \<or> endpoint w = ResetStopping \<longrightarrow>
        response_task w = Some (current w)) \<and>
     (\<forall>b. endpoint w = ResetStarting b \<longrightarrow>
        0 < current w \<and> response_task w = Some (current w - 1)) \<and>
     (\<forall>b. endpoint w = Starting b \<longrightarrow> current w = 0) \<and>
     (\<forall>m. transcript_task (sessions w m) = Raised \<longrightarrow> \<not> connected w) \<and>
     (\<forall>n. Sent (Endpoint n) SessionResetDone \<in> set (trace w) \<longrightarrow>
        (\<exists>k. response_task w = Some k \<and> n \<le> k))"

section \<open>Properties\<close>

subsection \<open>Stripping whitespace\<close>

lemma strip_Nil_iff: "strip s = [] \<longleftrightarrow> (\<forall>c\<in>set s. isspace c)"
proof -
  have "strip s = [] \<longleftrightarrow> (\<forall>c\<in>set (dropWhile isspace s). isspace c)"
    by (simp add: strip_def)
  also have "\<dots> \<longleftrightarrow> dropWhile isspace s = []"
  proof
    assume a: "\<forall>c\<in>set (dropWhile isspace s). isspace c"
    show "dropWhile isspace s = []"
    proof (rule ccontr)
      assume n: "dropWhile isspace s \<noteq> []"
      then have "\<not> isspace (hd (dropWhile isspace s))" by (rule hd_dropWhile)
      moreover from n have "hd (dropWhile isspace s) \<in> set (dropWhile isspace s)" by simp
      ultimately show False using a by blast
    qed
  qed (auto dest: set_dropWhileD)
  also have "\<dots> \<longleftrightarrow> (\<forall>c\<in>set s. isspace c)" by (rule dropWhile_eq_Nil_conv)
  finally show ?thesis .
qed

lemma last_dropWhile: "dropWhile P xs \<noteq> [] \<Longrightarrow> last (dropWhile P xs) = last xs"
  by (induction xs) (auto split: if_splits)

lemma strip_last:
  assumes "strip s \<noteq> []"
  shows "\<not> isspace (last (strip s))"
proof -
  let ?t = "dropWhile isspace (rev (dropWhile isspace s))"
  from assms have n: "?t \<noteq> []" by (simp add: strip_def)
  then have "\<not> isspace (hd ?t)" by (rule hd_dropWhile)
  moreover from n have "last (strip s) = hd ?t" by (simp add: strip_def last_rev)
  ultimately show ?thesis by simp
qed

lemma strip_hd:
  assumes "strip s \<noteq> []"
  shows "\<not> isspace (hd (strip s))"
proof -
  let ?u = "dropWhile isspace s"
  let ?t = "dropWhile isspace (rev ?u)"
  from assms have n: "?t \<noteq> []" by (simp add: strip_def)
  have u: "?u \<noteq> []"
  proof
    assume "?u = []"
    then have "?t = []" by (auto dest: set_dropWhileD)
    with n show False by blast
  qed
  from n have "hd (strip s) = last ?t" by (simp add: strip_def hd_rev)
  also from n have "\<dots> = last (rev ?u)" by (rule last_dropWhile)
  also from u have "\<dots> = hd ?u" by (simp add: last_rev)
  finally have "hd (strip s) = hd ?u" .
  moreover from u have "\<not> isspace (hd ?u)" by (rule hd_dropWhile)
  ultimately show ?thesis by simp
qed

subsection \<open>Audio after stop\<close>

lemma process_audio_stopped:
  "\<not> is_running_g (gemini v) \<Longrightarrow> process_audio d a v = (None, v)"
  by (simp add: process_audio_def send_audio_def)

lemma process_audio_all_stopped:
  "\<not> is_running_g (gemini v) \<Longrightarrow> process_audio_all d blocks v = (None, v)"
  by (induction blocks) (simp_all add: process_audio_stopped)

lemma stop_not_running: "\<not> is_running_g (gemini (stop v))"
  by (simp add: stop_def stop_end_def stop_begin_def close_end_def close_begin_def
      run_session_finally_def Let_def)

text \<open>
  C6. Whatever blocks are passed to \<^verbatim>\<open>process_audio\<close> once \<^verbatim>\<open>stop()\<close> has completed,
  in whatever state the session was stopped: no call raises, the session is left as
  \<^verbatim>\<open>stop()\<close> left it, and the blocks handed upstream are those handed before the stop.
  The blocks are arbitrary JSON values and the decoder is arbitrary, so not even a
  payload that would fail to decode raises after the stop.
\<close>

theorem no_audio_after_stop:
  "process_audio_all d blocks (stop v) = (None, stop v) \<and>
   realtime_input (gemini (snd (process_audio_all d blocks (stop v)))) = realtime_input (gemini v)"
proof -
  have "process_audio_all d blocks (stop v) = (None, stop v)"
    by (rule process_audio_all_stopped) (rule stop_not_running)
  moreover have "realtime_input (gemini (stop v)) = realtime_input (gemini v)"
    by (simp add: stop_def stop_end_def stop_begin_def close_end_def close_begin_def
      run_session_finally_def Let_def)
  ultimately show ?thesis by simp
qed

text \<open>
  The same block is forwarded by a started session and dropped by the stopped one, and a
  block that is not a string is dropped without an exception.
\<close>

theorem no_audio_after_stop_witness:
  "fst (process_audio (\<lambda>s. Some [1, 2]) (JString ''AQI='')
          (snd (start (CompletesAfter 5) 0 VoiceChatSession))) = None \<and>
   realtime_input (gemini (snd (process_audio (\<lambda>s. Some [1, 2]) (JString ''AQI='')
          (snd (start (CompletesAfter 5) 0 VoiceChatSession))))) = [[1, 2]] \<and>
   process_audio_all (\<lambda>s. Some [1, 2]) [JString ''AQI='', JNumber 5]
     (stop (snd (start (CompletesAfter 5) 0 VoiceChatSession))) =
     (None, stop (snd (start (CompletesAfter 5) 0 VoiceChatSession)))"
  using no_audio_after_stop [of "\<lambda>s. Some [1, 2]" "[JString ''AQI='', JNumber 5]"
      "snd (start (CompletesAfter 5) 0 VoiceChatSession)"]
  by (simp add: process_audio_def send_audio_def start_def connect_def connect_begin_def
      handshake_done_def connect_timeout_def start_end_def VoiceChatSession_def
      GeminiLiveSession_def)

subsection \<open>Idempotence of stop and close\<close>

lemma close_close: "close (close g) = close g"
  by (simp add: close_def close_end_def close_begin_def run_session_finally_def Let_def)

lemma stop_stop: "stop (stop v) = stop v"
  by (simp add: stop_def stop_end_def stop_begin_def close_end_def close_begin_def
      run_session_finally_def Let_def)

lemma close_settled: "\<not> is_running_g (close g) \<and> \<not> task_running (session_task (close g))"
  by (cases "session_task g")
     (simp_all add: task_running_def close_def close_end_def close_begin_def
        run_session_finally_def Let_def)

lemma close_after_connect: "\<not> dangling (close (snd (connect h lag GeminiLiveSession)))"
  by (cases h)
     (simp_all add: dangling_def task_running_def close_def close_end_def close_begin_def
        run_session_finally_def Let_def connect_def connect_begin_def handshake_done_def
        session_ends_def GeminiLiveSession_def)

text \<open>
  C8. A second \<^verbatim>\<open>stop()\<close> after a completed one changes nothing: the session object is
  the same, and so is the whole connection state with its trace of client events, to
  which \<^verbatim>\<open>stop()\<close> itself never adds. \<^verbatim>\<open>close()\<close> is idempotent too; on a session
  that was never connected it changes nothing, and after a \<^verbatim>\<open>connect()\<close> with any
  outcome (completed in time, completed between the timer and the raise, failed, or
  still pending when \<^verbatim>\<open>connect\<close> raised) it leaves neither a running task nor a
  connection handle. Neither function has a raising path: the only
  exception \<^verbatim>\<open>close()\<close> can meet is the cancellation, which it catches.
\<close>

theorem stop_idempotent:
  "stop (stop v) = stop v \<and> close (close g) = close g \<and>
   upd n stop (upd n stop w) = upd n stop w \<and> trace (upd n stop w) = trace w \<and>
   close GeminiLiveSession = GeminiLiveSession \<and>
   \<not> dangling (close (snd (connect h lag GeminiLiveSession)))"
proof -
  have "upd n stop (upd n stop w) = upd n stop w"
    by (simp add: upd_def stop_stop)
  moreover have "trace (upd n stop w) = trace w"
    by (simp add: upd_def)
  moreover have "close GeminiLiveSession = GeminiLiveSession"
    by (simp add: close_def close_end_def close_begin_def GeminiLiveSession_def)
  ultimately show ?thesis
    by (simp add: stop_stop close_close close_after_connect)
qed

theorem stop_idempotent_witness:
  "session_task (gemini (stop (snd (start (CompletesAfter 5) 0 VoiceChatSession)))) = Finished \<and>
   stop (stop (snd (start (CompletesAfter 5) 0 VoiceChatSession))) =
     stop (snd (start (CompletesAfter 5) 0 VoiceChatSession)) \<and>
   session_task (snd (connect Pending 0 GeminiLiveSession)) = Connecting \<and>
   \<not> dangling (close (snd (connect Pending 0 GeminiLiveSession))) \<and>
   session_task (snd (connect (CompletesAfter 30001) 5 GeminiLiveSession)) = Receiving \<and>
   \<not> dangling (close (snd (connect (CompletesAfter 30001) 5 GeminiLiveSession)))"
  using stop_idempotent [of "snd (start (CompletesAfter 5) 0 VoiceChatSession)"
      GeminiLiveSession 0 voice_chat_endpoint Pending 0]
    stop_idempotent [of "snd (start (CompletesAfter 5) 0 VoiceChatSession)"
      GeminiLiveSession 0 voice_chat_endpoint "CompletesAfter 30001" 5]
  by (simp add: stop_def stop_end_def stop_begin_def close_end_def close_begin_def
      run_session_finally_def start_def connect_def connect_begin_def handshake_done_def
      connect_timeout_def start_end_def VoiceChatSession_def GeminiLiveSession_def)

subsection \<open>The connect timeout\<close>




text \<open>
  The same race in the endpoint: the handshake of the first session completes, then the
  timeout is raised in \<^verbatim>\<open>start()\<close>. The client gets the error event, and the
  \<^verbatim>\<open>finally\<close> block cancels the task that was already in its receive loop.
\<close>

lemma timeout_after_handshake_in_endpoint:
  "sent (trace (run d [Handshake 0, Timeout] voice_chat_endpoint)) = [ErrorEvent TimeoutError] \<and>
   session (gemini (sessions (run d [Handshake 0, Timeout] voice_chat_endpoint) 0)) = Some Handle \<and>
   session_task (gemini (sessions (run d [Handshake 0, Timeout] voice_chat_endpoint) 0)) =
     Cancelling \<and>
   endpoint (run d [Handshake 0, Timeout, Resume] voice_chat_endpoint) = Done \<and>
   \<not> dangling (gemini (sessions (run d [Handshake 0, Timeout, Resume] voice_chat_endpoint) 0))"
  by (simp add: step_def on_handshake_def upd_gemini_def fail_def final_stop_def finish_def
      send_json_def upd_def stop_begin_def stop_end_def close_begin_def close_end_def
      run_session_finally_def start_begin_def connect_begin_def handshake_done_def
      dangling_def task_running_def voice_chat_endpoint_def VoiceChatSession_def
      GeminiLiveSession_def Let_def)

subsection \<open>Append messages without audio\<close>

text \<open>
  C10. For a decoded message whose \<^verbatim>\<open>type\<close> is \<^verbatim>\<open>input_audio_buffer.append\<close> and whose
  \<^verbatim>\<open>delta\<close> is absent or the empty string, the dispatch makes no call at all (so
  \<^verbatim>\<open>process_audio\<close> is not invoked), and the whole connection state, with every session
  object and what was handed upstream, is unchanged.
\<close>

theorem empty_delta_dropped:
  assumes "map_of (rev kvs) ''type'' = Some (JString ''input_audio_buffer.append'')"
      and "map_of (rev kvs) ''delta'' = None \<or> map_of (rev kvs) ''delta'' = Some (JString '''')"
  shows "dispatch (JObject kvs) = Inr Ignore \<and> step d (Frame (JObject kvs)) w = w"
proof -
  from assms have "dispatch (JObject kvs) = Inr Ignore"
    by (auto simp add: dispatch_def get_def)
  then show ?thesis by (simp add: step_def on_message_def)
qed

text \<open>An empty \<^verbatim>\<open>delta\<close> is dropped; the same message with audio is a call.\<close>

theorem empty_delta_dropped_witness:
  "map_of (rev [(''type'', JString ''input_audio_buffer.append''), (''delta'', JString '''')]) ''type'' =
     Some (JString ''input_audio_buffer.append'') \<and>
   map_of (rev [(''type'', JString ''input_audio_buffer.append''), (''delta'', JString '''')]) ''delta'' =
     Some (JString '''') \<and>
   dispatch (JObject [(''type'', JString ''input_audio_buffer.append''), (''delta'', JString '''')]) =
     Inr Ignore \<and>
   dispatch (JObject [(''type'', JString ''input_audio_buffer.append''), (''delta'', JString ''AQI='')]) =
     Inr (Append (JString ''AQI=''))"
proof -
  let ?kvs = "[(''type'', JString ''input_audio_buffer.append''), (''delta'', JString '''')]"
  have a: "map_of (rev ?kvs) ''type'' = Some (JString ''input_audio_buffer.append'')" by simp
  have b: "map_of (rev ?kvs) ''delta'' = None \<or> map_of (rev ?kvs) ''delta'' = Some (JString '''')"
    by simp
  have "dispatch (JObject [(''type'', JString ''input_audio_buffer.append''), (''delta'', JString ''AQI='')]) =
     Inr (Append (JString ''AQI=''))"
    by (simp add: dispatch_def get_def)
  with a empty_delta_dropped [OF a b, of "\<lambda>s. None" voice_chat_endpoint] show ?thesis by simp
qed

subsection \<open>Frame lemmas for the transcript queue\<close>

lemmas gemini_defs = connect_begin_def handshake_done_def session_ends_def close_begin_def
  close_end_def run_session_finally_def

lemmas session_defs = start_begin_def start_end_def stop_begin_def stop_end_def
  process_responses_def cancel_responses_def

lemma tq_gemini [simp]:
  "transcript_queue (connect_begin g) = transcript_queue g"
  "transcript_queue (handshake_done g) = transcript_queue g"
  "transcript_queue (session_ends g) = transcript_queue g"
  "transcript_queue (close_begin g) = transcript_queue g"
  "transcript_queue (close_end g) = transcript_queue g"
  "transcript_queue (run_session_finally g) = transcript_queue g"
  by (simp_all add: gemini_defs Let_def)

lemma tq_session [simp]:
  "transcript_queue (gemini (start_begin v)) = transcript_queue (gemini v)"
  "transcript_queue (gemini (start_end v)) = transcript_queue (gemini v)"
  "transcript_queue (gemini (stop_begin v)) = transcript_queue (gemini v)"
  "transcript_queue (gemini (stop_end v)) = transcript_queue (gemini v)"
  "transcript_queue (gemini (process_responses v)) = transcript_queue (gemini v)"
  "transcript_queue (gemini (cancel_responses v)) = transcript_queue (gemini v)"
  by (simp_all add: session_defs)

lemma tq_process_audio [simp]:
  "transcript_queue (gemini (snd (process_audio d a v))) = transcript_queue (gemini v)"
  by (simp add: process_audio_def send_audio_def split: json.splits option.splits)

lemma tq_handle_audio [simp]:
  "transcript_queue (gemini (snd (handle_audio c v))) = transcript_queue (gemini v)"
  by (simp add: handle_audio_def get_audio_chunks_def audio_done_def Let_def
      split: pump.splits list.splits option.splits)

lemma tq_handle_transcripts:
  "t \<in> set (transcript_queue (gemini (snd (handle_transcripts c v)))) \<Longrightarrow>
   t \<in> set (transcript_queue (gemini v))"
  by (auto simp add: handle_transcripts_def get_transcripts_def Let_def
      split: pump.splits list.splits if_splits)

lemma sent_handle_transcripts:
  "Transcript sp txt \<in> set (fst (handle_transcripts c v)) \<Longrightarrow>
   \<exists>t\<in>set (transcript_queue (gemini v)). tr_type t = sp \<and> tr_text t = txt"
  by (auto simp add: handle_transcripts_def get_transcripts_def Let_def
      split: pump.splits list.splits if_splits)

lemma sent_handle_audio:
  "Transcript sp txt \<notin> set (fst (handle_audio c v))"
  by (auto simp add: handle_audio_def get_audio_chunks_def audio_done_def Let_def
      split: pump.splits list.splits option.splits if_splits)

lemma tq_put_transcript:
  "t \<in> set (transcript_queue (put_transcript who tr g)) \<Longrightarrow>
   t \<in> set (transcript_queue g) \<or>
   (\<exists>s. (who, s) \<in> set (fragment who tr) \<and> s \<noteq> [] \<and> strip s \<noteq> [] \<and>
        t = \<lparr>tr_type = who, tr_text = strip s\<rparr>)"
  by (auto simp add: put_transcript_def fragment_def split: option.splits if_splits)

lemma tq_put_audio [simp]:
  "transcript_queue (put_audio mt g) = transcript_queue g"
  "transcript_queue (put_turn_complete tc g) = transcript_queue g"
  by (simp_all add: put_audio_def put_turn_complete_def split: option.splits)

lemma tq_run_session_response:
  assumes "t \<in> set (transcript_queue (run_session_response r g))"
  shows "t \<in> set (transcript_queue g) \<or>
   (\<exists>sp s. (sp, s) \<in> set (fragments_of r) \<and> s \<noteq> [] \<and> strip s \<noteq> [] \<and>
        t = \<lparr>tr_type = sp, tr_text = strip s\<rparr>)"
proof (cases "is_running_g g")
  case False
  with assms show ?thesis by (simp add: run_session_response_def)
next
  case True
  show ?thesis
  proof (cases "server_content r")
    case None
    with True assms show ?thesis by (simp add: run_session_response_def)
  next
    case (Some c)
    with True assms have
      "t \<in> set (transcript_queue (put_transcript Assistant (output_transcription c)
                  (put_transcript User (input_transcription c) g)))"
      by (simp add: run_session_response_def)
    then show ?thesis
      using Some
      by (auto simp add: fragments_of_def dest!: tq_put_transcript)
  qed
qed

subsection \<open>The connection state under one scheduler event\<close>

lemma upd_simps [simp]:
  "sessions (upd n f w) m = (if m = n then f (sessions w n) else sessions w m)"
  "current (upd n f w) = current w"
  "response_task (upd n f w) = response_task w"
  "endpoint (upd n f w) = endpoint w"
  "connected (upd n f w) = connected w"
  "trace (upd n f w) = trace w"
  by (simp_all add: upd_def)

lemma upd_gemini_simps [simp]:
  "sessions (upd_gemini n f w) m =
     (if m = n then (sessions w n)\<lparr>gemini := f (gemini (sessions w n))\<rparr> else sessions w m)"
  "current (upd_gemini n f w) = current w"
  "response_task (upd_gemini n f w) = response_task w"
  "endpoint (upd_gemini n f w) = endpoint w"
  "connected (upd_gemini n f w) = connected w"
  "trace (upd_gemini n f w) = trace w"
  by (simp_all add: upd_gemini_def)

lemma resume_transcripts_alt:
  "resume_transcripts n w =
     (upd n (\<lambda>_. snd (handle_transcripts (connected w) (sessions w n))) w)
       \<lparr>trace := trace w @
          map (Sent (TranscriptTask n)) (fst (handle_transcripts (connected w) (sessions w n)))\<rparr>"
  by (simp add: resume_transcripts_def split: prod.splits)

lemma resume_audio_alt:
  "resume_audio n w =
     (upd n (\<lambda>_. snd (handle_audio (connected w) (sessions w n))) w)
       \<lparr>trace := trace w @
          map (Sent (AudioTask n)) (fst (handle_audio (connected w) (sessions w n)))\<rparr>"
  by (simp add: resume_audio_def split: prod.splits)

lemma on_message_alt:
  "on_message d message w =
     (case dispatch message of
        Inl e \<Rightarrow> fail e w
      | Inr Ignore \<Rightarrow> w
      | Inr Reset \<Rightarrow> reset_stop w
      | Inr (Append a) \<Rightarrow>
          (let r = process_audio d a (sessions w (current w));
               w1 = upd (current w) (\<lambda>_. snd r) w
           in case fst r of None \<Rightarrow> w1 | Some e \<Rightarrow> fail e w1))"
  by (simp add: on_message_def Let_def split: sum.splits request.splits prod.splits option.splits)

lemmas endpoint_defs = final_stop_def fail_def started_def reset_stop_def reset_start_def
  reset_done_def on_message_alt finish_def send_json_def

lemmas task_defs = on_handshake_def on_response_def resume_transcripts_alt resume_audio_alt

lemma tq_step:
  assumes "t \<in> set (transcript_queue (gemini (sessions (step d ev w) n)))"
  shows "(\<exists>m. t \<in> set (transcript_queue (gemini (sessions w m)))) \<or>
         (\<exists>sp s. (sp, s) \<in> set (fragments [ev]) \<and> s \<noteq> [] \<and> strip s \<noteq> [] \<and>
            t = \<lparr>tr_type = sp, tr_text = strip s\<rparr>)"
proof (cases ev)
  case (Response m r)
  with assms show ?thesis
    by (auto simp add: step_def on_response_def  Let_def split: if_splits
        dest!: tq_run_session_response)
next
  case (TranscriptPump m)
  with assms show ?thesis
    by (auto simp add: step_def resume_transcripts_alt  split: if_splits
        dest: tq_handle_transcripts)
qed (use assms in \<open>auto simp add: step_def endpoint_defs task_defs  Let_def VoiceChatSession_def GeminiLiveSession_def
        split: if_splits endpoint.splits bool.splits prod.splits option.splits sum.splits request.splits\<close>)

lemma sent_step:
  assumes "Sent who (Transcript sp txt) \<in> set (trace (step d ev w))"
  shows "Sent who (Transcript sp txt) \<in> set (trace w) \<or>
         (\<exists>m. \<exists>t\<in>set (transcript_queue (gemini (sessions w m))). tr_type t = sp \<and> tr_text t = txt)"
proof (cases ev)
  case (TranscriptPump m)
  with assms show ?thesis
    by (auto simp add: step_def resume_transcripts_alt  split: if_splits
        dest!: sent_handle_transcripts)
next
  case (AudioPump m)
  with assms show ?thesis
    by (auto simp add: step_def resume_audio_alt  sent_handle_audio split: if_splits)
qed (use assms in \<open>auto simp add: step_def endpoint_defs task_defs  Let_def
        split: if_splits endpoint.splits bool.splits prod.splits option.splits sum.splits request.splits\<close>)

lemmas eval_defs = step_def on_handshake_def on_response_def resume_transcripts_def
  resume_audio_def upd_def upd_gemini_def started_def reset_stop_def reset_start_def
  reset_done_def on_message_def dispatch_def get_def fail_def final_stop_def finish_def
  send_json_def handle_audio_def get_audio_chunks_def audio_done_def handle_transcripts_def
  get_transcripts_def process_responses_def cancel_responses_def cancel_pump_def
  process_audio_def send_audio_def stop_begin_def stop_end_def start_begin_def start_end_def
  close_begin_def close_end_def connect_begin_def handshake_done_def session_ends_def
  run_session_finally_def run_session_response_def put_transcript_def put_audio_def
  put_turn_complete_def voice_chat_endpoint_def VoiceChatSession_def GeminiLiveSession_def
  strip_def isspace_def Let_def

subsection \<open>Transcript events\<close>

lemma fragments_Cons: "fragments (ev # evs) = fragments [ev] @ fragments evs"
  by (cases ev) simp_all

lemma enqueued_append: "enqueued (fs @ gs) = enqueued fs @ enqueued gs"
  by (simp add: enqueued_def)

lemma in_enqueued:
  "(sp, txt) \<in> set (enqueued fs) \<longleftrightarrow>
   (\<exists>s. (sp, s) \<in> set fs \<and> s \<noteq> [] \<and> strip s \<noteq> [] \<and> txt = strip s)"
  by (auto simp add: enqueued_def)

lemma transcripts_from_step:
  assumes "transcripts_from fs w"
  shows "transcripts_from (fs @ fragments [ev]) (step d ev w)"
  unfolding transcripts_from_def
proof (intro conjI allI ballI impI)
  fix n t
  assume "t \<in> set (transcript_queue (gemini (sessions (step d ev w) n)))"
  then show "(tr_type t, tr_text t) \<in> set (enqueued (fs @ fragments [ev]))"
    using assms
    by (auto simp add: transcripts_from_def enqueued_append in_enqueued dest!: tq_step)
next
  fix who sp tx
  assume "Sent who (Transcript sp tx) \<in> set (trace (step d ev w))"
  then show "(sp, tx) \<in> set (enqueued (fs @ fragments [ev]))"
    using assms
    by (auto simp add: transcripts_from_def enqueued_append dest!: sent_step)
qed

lemma transcripts_from_run:
  "transcripts_from fs w \<Longrightarrow> transcripts_from (fs @ fragments evs) (run d evs w)"
proof (induction evs arbitrary: fs w)
  case Nil
  then show ?case by simp
next
  case (Cons ev evs)
  from Cons.prems have "transcripts_from (fs @ fragments [ev]) (step d ev w)"
    by (rule transcripts_from_step)
  then have "transcripts_from ((fs @ fragments [ev]) @ fragments evs) (run d evs (step d ev w))"
    by (rule Cons.IH)
  then show ?case by (simp add: fragments_Cons [of ev evs])
qed

lemma transcripts_from_initial: "transcripts_from [] voice_chat_endpoint"
  by (simp add: transcripts_from_def voice_chat_endpoint_def VoiceChatSession_def
      GeminiLiveSession_def start_begin_def connect_begin_def)

lemma sent_transcript_enqueued:
  assumes "Sent who (Transcript sp txt) \<in> set (trace (run d evs voice_chat_endpoint))"
  shows "(sp, txt) \<in> set (enqueued (fragments evs))"
proof -
  have "transcripts_from ([] @ fragments evs) (run d evs voice_chat_endpoint)"
    using transcripts_from_initial by (rule transcripts_from_run)
  with assms show ?thesis by (simp add: transcripts_from_def)
qed

lemma whitespace_only_iff: "whitespace_only s \<longleftrightarrow> s = [] \<or> strip s = []"
  by (auto simp add: whitespace_only_def list_all_iff strip_Nil_iff)


text \<open>
  C9. Every transcript event handed to the client, by any task, in any run of the
  connection (any schedule of upstream responses, client frames, pump resumptions,
  timeouts and disconnects, any decoder), carries the text of a transcription fragment
  of an upstream response of that run, with the speaker of that fragment, stripped of
  leading and trailing whitespace; the text is not empty and neither its first nor its
  last code point is whitespace.
\<close>

theorem transcript_events_stripped:
  assumes "Sent who (Transcript sp txt) \<in> set (trace (run d evs voice_chat_endpoint))"
  shows "(\<exists>s. (sp, s) \<in> set (fragments evs) \<and> txt = strip s) \<and>
         txt \<noteq> [] \<and> \<not> isspace (hd txt) \<and> \<not> isspace (last txt)"
proof -
  from assms have "(sp, txt) \<in> set (enqueued (fragments evs))"
    by (rule sent_transcript_enqueued)
  then obtain s where s: "(sp, s) \<in> set (fragments evs)" "strip s \<noteq> []" "txt = strip s"
    by (auto simp add: in_enqueued)
  from s(2) have "\<not> isspace (hd (strip s))" "\<not> isspace (last (strip s))"
    by (rule strip_hd, rule strip_last)
  with s show ?thesis by auto
qed

theorem transcript_events_stripped_witness:
  "Sent (TranscriptTask 0) (Transcript Assistant [12371, 32, 12435]) \<in>
     set (trace (run (\<lambda>s. None)
       [Handshake 0, Resume,
        Response 0 \<lparr>server_content = Some
          \<lparr>input_transcription = None,
           output_transcription = Some \<lparr>t_text = Some [32, 12371, 32, 12435, 12288, 10]\<rparr>,
           model_turn = None, turn_complete = None\<rparr>\<rparr>,
        TranscriptPump 0, TranscriptPump 0] voice_chat_endpoint)) \<and>
   strip [32, 12371, 32, 12435, 12288, 10] = [12371, 32, 12435] \<and>
   \<not> isspace (hd [12371, 32, 12435]) \<and> \<not> isspace (last [12371, 32, 12435])"
proof -
  let ?evs = "[Handshake 0, Resume,
        Response 0 \<lparr>server_content = Some
          \<lparr>input_transcription = None,
           output_transcription = Some \<lparr>t_text = Some [32, 12371, 32, 12435, 12288, 10]\<rparr>,
           model_turn = None, turn_complete = None\<rparr>\<rparr>,
        TranscriptPump 0, TranscriptPump 0]"
  have h: "Sent (TranscriptTask 0) (Transcript Assistant [12371, 32, 12435]) \<in>
     set (trace (run (\<lambda>s. None) ?evs voice_chat_endpoint))"
    by (simp add: eval_defs)
  have "strip [32, 12371, 32, 12435, 12288, 10] = [12371, 32, 12435]"
    by (simp add: strip_def isspace_def)
  with h transcript_events_stripped [OF h] show ?thesis by simp
qed

text \<open>
  C7. A response whose transcription fragments are all empty, whitespace-only or without
  text leaves the transcript queue as it was: such text is filtered out before it is
  enqueued. And in any run of the connection every transcript event handed to the client
  is the stripped text of a fragment of that run that is not whitespace-only, so no event
  is ever emitted for a whitespace-only fragment.
\<close>

theorem whitespace_never_emitted:
  "(list_all (\<lambda>(sp, s). whitespace_only s) (fragments_of r) \<longrightarrow>
      transcript_queue (run_session_response r g) = transcript_queue g) \<and>
   (Sent who (Transcript sp txt) \<in> set (trace (run d evs voice_chat_endpoint)) \<longrightarrow>
      (\<exists>s. (sp, s) \<in> set (fragments evs) \<and> \<not> whitespace_only s \<and> txt = strip s))"
proof (intro conjI impI)
  assume "list_all (\<lambda>(sp, s). whitespace_only s) (fragments_of r)"
  then show "transcript_queue (run_session_response r g) = transcript_queue g"
    by (auto simp add: run_session_response_def fragments_of_def fragment_def
        put_transcript_def whitespace_only_iff split: option.splits)
next
  assume "Sent who (Transcript sp txt) \<in> set (trace (run d evs voice_chat_endpoint))"
  then have "(sp, txt) \<in> set (enqueued (fragments evs))"
    by (rule sent_transcript_enqueued)
  then show "\<exists>s. (sp, s) \<in> set (fragments evs) \<and> \<not> whitespace_only s \<and> txt = strip s"
    by (auto simp add: in_enqueued whitespace_only_iff)
qed

theorem whitespace_never_emitted_witness:
  "list_all (\<lambda>(sp, s). whitespace_only s)
     (fragments_of \<lparr>server_content = Some
          \<lparr>input_transcription = Some \<lparr>t_text = Some [32, 12288, 10]\<rparr>,
           output_transcription = Some \<lparr>t_text = None\<rparr>,
           model_turn = None, turn_complete = None\<rparr>\<rparr>) \<and>
   transcript_queue (run_session_response \<lparr>server_content = Some
          \<lparr>input_transcription = Some \<lparr>t_text = Some [32, 12288, 10]\<rparr>,
           output_transcription = Some \<lparr>t_text = None\<rparr>,
           model_turn = None, turn_complete = None\<rparr>\<rparr>
        (handshake_done (connect_begin GeminiLiveSession))) = [] \<and>
   sent (trace (run (\<lambda>s. None)
       [Handshake 0, Resume,
        Response 0 \<lparr>server_content = Some
          \<lparr>input_transcription = Some \<lparr>t_text = Some [32, 12288, 10]\<rparr>,
           output_transcription = Some \<lparr>t_text = Some [12371]\<rparr>,
           model_turn = None, turn_complete = None\<rparr>\<rparr>,
        TranscriptPump 0, TranscriptPump 0, TranscriptPump 0, TranscriptPump 0]
       voice_chat_endpoint)) = [SessionReady, Transcript Assistant [12371]] \<and>
   \<not> whitespace_only [12371]"
proof -
  let ?r = "\<lparr>server_content = Some
          \<lparr>input_transcription = Some \<lparr>t_text = Some [32, 12288, 10]\<rparr>,
           output_transcription = Some \<lparr>t_text = None\<rparr>,
           model_turn = None, turn_complete = None\<rparr>\<rparr>"
  let ?evs = "[Handshake 0, Resume,
        Response 0 \<lparr>server_content = Some
          \<lparr>input_transcription = Some \<lparr>t_text = Some [32, 12288, 10]\<rparr>,
           output_transcription = Some \<lparr>t_text = Some [12371]\<rparr>,
           model_turn = None, turn_complete = None\<rparr>\<rparr>,
        TranscriptPump 0, TranscriptPump 0, TranscriptPump 0, TranscriptPump 0]"
  have a: "list_all (\<lambda>(sp, s). whitespace_only s) (fragments_of ?r)"
    by (simp add: fragments_of_def fragment_def whitespace_only_def isspace_def)
  have t: "trace (run (\<lambda>s. None) ?evs voice_chat_endpoint) =
      [Started 0, Sent (Endpoint 0) SessionReady, Put 0,
       Sent (TranscriptTask 0) (Transcript Assistant [12371])]"
    by (simp add: eval_defs)
  then have b: "Sent (TranscriptTask 0) (Transcript Assistant [12371]) \<in>
      set (trace (run (\<lambda>s. None) ?evs voice_chat_endpoint))"
    by simp
  have q: "transcript_queue (handshake_done (connect_begin GeminiLiveSession)) = []"
    by (simp add: eval_defs)
  from whitespace_never_emitted [of ?r "handshake_done (connect_begin GeminiLiveSession)"
      "TranscriptTask 0" Assistant "[12371]" "\<lambda>s. None" ?evs] a b
  have "transcript_queue (run_session_response ?r (handshake_done (connect_begin GeminiLiveSession))) =
          transcript_queue (handshake_done (connect_begin GeminiLiveSession))"
    and "\<exists>s. (Assistant, s) \<in> set (fragments ?evs) \<and> \<not> whitespace_only s \<and> [12371] = strip s"
    by blast+
  moreover have "\<not> whitespace_only [12371]"
    by (simp add: whitespace_only_def isspace_def)
  ultimately show ?thesis using a t q by simp
qed

subsection \<open>Readiness events\<close>

lemma precedes_append:
  "precedes a b (tr @ xs) \<longleftrightarrow> precedes a b tr \<and> (a \<in> set tr \<or> precedes a b xs)"
  by (induction tr) auto

lemma precedes_notin: "b \<notin> set xs \<Longrightarrow> precedes a b xs"
  by (induction xs) auto

lemma count_list_map_Sent [simp]:
  "count_list (map (Sent (TranscriptTask n)) es) (Started k) = 0"
  "count_list (map (Sent (AudioTask n)) es) (Started k) = 0"
  "count_list (map (Sent (TranscriptTask n)) es) (Sent (Endpoint k) e) = 0"
  "count_list (map (Sent (AudioTask n)) es) (Sent (Endpoint k) e) = 0"
  by (induction es) auto

lemma precedes_map_Sent [simp]:
  "precedes a (Sent (Endpoint k) e) (map (Sent (TranscriptTask n)) es)"
  "precedes a (Sent (Endpoint k) e) (map (Sent (AudioTask n)) es)"
  by (rule precedes_notin, auto)+

lemma trace_pumps:
  "trace (resume_transcripts n w) =
     trace w @ map (Sent (TranscriptTask n)) (fst (handle_transcripts (connected w) (sessions w n)))"
  "trace (resume_audio n w) =
     trace w @ map (Sent (AudioTask n)) (fst (handle_audio (connected w) (sessions w n)))"
  by (simp_all add: resume_transcripts_alt resume_audio_alt)

lemma other_pumps [simp]:
  "current (resume_transcripts n w) = current w"
  "endpoint (resume_transcripts n w) = endpoint w"
  "connected (resume_transcripts n w) = connected w"
  "response_task (resume_transcripts n w) = response_task w"
  "current (resume_audio n w) = current w"
  "endpoint (resume_audio n w) = endpoint w"
  "connected (resume_audio n w) = connected w"
  "response_task (resume_audio n w) = response_task w"
  by (simp_all add: resume_transcripts_alt resume_audio_alt)






subsection \<open>Pumps that can no longer send\<close>

lemma dead_simps [simp]:
  "dead NotCreated" "dead Returned" "dead Raised" "dead Cancelled"
  "\<not> dead AtLoop" "\<not> dead AtChunks" "\<not> dead AtPoll"
  by (simp_all add: dead_def)

lemma handle_transcripts_dead:
  "dead (transcript_task v) \<Longrightarrow> handle_transcripts c v = ([], v)"
  by (cases "transcript_task v") (simp_all add: handle_transcripts_def)

lemma handle_audio_dead:
  "dead (audio_task v) \<Longrightarrow> handle_audio c v = ([], v)"
  by (cases "audio_task v") (simp_all add: handle_audio_def)

lemma handle_transcripts_sends:
  "fst (handle_transcripts c v) \<noteq> [] \<Longrightarrow> c \<and> \<not> dead (transcript_task v)"
  by (cases "transcript_task v")
     (auto simp add: handle_transcripts_def get_transcripts_def Let_def
        split: list.splits if_splits)

lemma handle_audio_sends:
  "fst (handle_audio c v) \<noteq> [] \<Longrightarrow> c \<and> \<not> dead (audio_task v)"
  by (cases "audio_task v")
     (auto simp add: handle_audio_def get_audio_chunks_def audio_done_def Let_def
        split: list.splits option.splits if_splits)

lemma handle_transcripts_tasks:
  "audio_task (snd (handle_transcripts c v)) = audio_task v"
  "transcript_task (snd (handle_transcripts c v)) = Raised \<Longrightarrow>
     transcript_task v = Raised \<or> \<not> c"
  by (cases "transcript_task v";
      auto simp add: handle_transcripts_def get_transcripts_def Let_def
        split: list.splits if_splits)+

lemma handle_audio_tasks:
  "transcript_task (snd (handle_audio c v)) = transcript_task v"
  by (cases "audio_task v")
     (auto simp add: handle_audio_def get_audio_chunks_def audio_done_def Let_def
        split: list.splits option.splits if_splits)

lemma session_tasks [simp]:
  "transcript_task (start_begin v) = transcript_task v"
  "transcript_task (start_end v) = transcript_task v"
  "transcript_task (stop_begin v) = transcript_task v"
  "transcript_task (stop_end v) = transcript_task v"
  "audio_task (start_begin v) = audio_task v"
  "audio_task (start_end v) = audio_task v"
  "audio_task (stop_begin v) = audio_task v"
  "audio_task (stop_end v) = audio_task v"
  "transcript_task (snd (process_audio d a v)) = transcript_task v"
  "audio_task (snd (process_audio d a v)) = audio_task v"
  by (simp_all add: session_defs process_audio_def split: prod.splits)

lemma cancel_responses_dead:
  "transcript_task v \<noteq> Raised \<Longrightarrow>
     dead (transcript_task (cancel_responses v)) \<and> dead (audio_task (cancel_responses v))"
  by (cases "transcript_task v"; cases "audio_task v")
     (simp_all add: cancel_responses_def cancel_pump_def)

lemma cancel_responses_Raised:
  "transcript_task (cancel_responses v) = Raised \<longleftrightarrow> transcript_task v = Raised"
  by (cases "transcript_task v") (simp_all add: cancel_responses_def cancel_pump_def)

lemma cancel_responses_keeps_dead:
  "dead (transcript_task v) \<Longrightarrow> dead (audio_task v) \<Longrightarrow>
     dead (transcript_task (cancel_responses v)) \<and> dead (audio_task (cancel_responses v))"
  by (cases "transcript_task v"; cases "audio_task v")
     (simp_all add: cancel_responses_def cancel_pump_def)


lemma step_response_task:
  "response_task (step d ev w) =
     (if ev = Resume \<and>
         (endpoint w = Starting True \<and> connected w \<or> endpoint w = ResetStarting True)
      then Some (current w) else response_task w)"
  by (cases ev)
     (auto simp add: step_def endpoint_defs task_defs Let_def
        split: endpoint.splits bool.splits sum.splits request.splits option.splits)

lemma step_current:
  "current (step d ev w) =
     (if ev = Resume \<and> endpoint w = ResetStopping then Suc (current w) else current w)"
  by (cases ev)
     (auto simp add: step_def endpoint_defs task_defs Let_def
        split: endpoint.splits bool.splits sum.splits request.splits option.splits)

lemma step_connected: "connected (step d ev w) \<Longrightarrow> connected w"
  by (cases ev)
     (auto simp add: step_def endpoint_defs task_defs Let_def
        split: endpoint.splits bool.splits sum.splits request.splits option.splits if_splits)

lemma step_old_tasks:
  assumes "m < current w"
  shows "(dead (transcript_task (sessions w m)) \<longrightarrow>
            dead (transcript_task (sessions (step d ev w) m))) \<and>
         (dead (audio_task (sessions w m)) \<longrightarrow>
            dead (audio_task (sessions (step d ev w) m)))"
proof (cases ev)
  case (TranscriptPump n)
  then show ?thesis
    by (auto simp add: step_def resume_transcripts_alt handle_transcripts_dead
        handle_transcripts_tasks)
next
  case (AudioPump n)
  then show ?thesis
    by (auto simp add: step_def resume_audio_alt handle_audio_dead handle_audio_tasks)
next
  case Resume
  with assms show ?thesis
    by (cases "transcript_task (sessions w m)"; cases "audio_task (sessions w m)")
       (auto simp add: step_def endpoint_defs Let_def cancel_responses_def cancel_pump_def
        split: endpoint.splits bool.splits option.splits)
qed (use assms in \<open>auto simp add: step_def endpoint_defs task_defs Let_def
        split: endpoint.splits bool.splits sum.splits request.splits option.splits\<close>)

lemma quiet_step:
  assumes "quiet m w" and "m < current w"
  shows "quiet m (step d ev w)"
  using assms step_old_tasks [OF assms(2), of d ev] step_connected [of d ev w]
  by (auto simp add: quiet_def)

lemma reset_done_quiet:
  assumes "response_task w = Some m" and "m \<noteq> current w"
    and "transcript_task (sessions w m) = Raised \<longrightarrow> \<not> connected w"
  shows "quiet m (reset_done w)"
proof (cases "connected w")
  case False
  then show ?thesis
    by (simp add: quiet_def reset_done_def fail_def final_stop_def send_json_def Let_def assms(1))
next
  case True
  with assms(3) have "transcript_task (sessions w m) \<noteq> Raised" by blast
  then have "dead (transcript_task (cancel_responses (sessions w m))) \<and>
             dead (audio_task (cancel_responses (sessions w m)))"
    by (rule cancel_responses_dead)
  with True assms(1,2) show ?thesis
    by (simp add: quiet_def reset_done_def send_json_def Let_def)
qed

lemma step_Raised:
  assumes "transcript_task (sessions (step d ev w) m) = Raised"
  shows "transcript_task (sessions w m) = Raised \<or> \<not> connected w"
proof (cases ev)
  case (TranscriptPump n)
  with assms show ?thesis
    by (auto simp add: step_def resume_transcripts_alt split: if_splits
        dest: handle_transcripts_tasks(2))
next
  case (AudioPump n)
  with assms show ?thesis
    by (auto simp add: step_def resume_audio_alt handle_audio_tasks split: if_splits)
next
  case Resume
  with assms show ?thesis
    by (auto simp add: step_def endpoint_defs Let_def cancel_responses_Raised
        process_responses_def VoiceChatSession_def
        split: endpoint.splits bool.splits option.splits if_splits)
qed (use assms in \<open>auto simp add: step_def endpoint_defs task_defs Let_def
        split: endpoint.splits bool.splits sum.splits request.splits option.splits if_splits\<close>)

lemma step_reset_done:
  assumes "Sent (Endpoint n) SessionResetDone \<in> set (trace (step d ev w))"
  shows "Sent (Endpoint n) SessionResetDone \<in> set (trace w) \<or>
         (ev = Resume \<and> endpoint w = ResetStarting True \<and> n = current w)"
proof (cases ev)
  case (TranscriptPump m)
  with assms show ?thesis by (auto simp add: step_def trace_pumps)
next
  case (AudioPump m)
  with assms show ?thesis by (auto simp add: step_def trace_pumps)
qed (use assms in \<open>auto simp add: step_def endpoint_defs task_defs Let_def
        split: endpoint.splits bool.splits sum.splits request.splits option.splits if_splits\<close>)

lemma step_endpoint_task:
  assumes "(endpoint w = Receive \<or> endpoint w = ResetStopping \<longrightarrow>
             response_task w = Some (current w)) \<and>
           (\<forall>b. endpoint w = ResetStarting b \<longrightarrow>
             0 < current w \<and> response_task w = Some (current w - 1)) \<and>
           (\<forall>b. endpoint w = Starting b \<longrightarrow> current w = 0)"
  shows "(endpoint (step d ev w) = Receive \<or> endpoint (step d ev w) = ResetStopping \<longrightarrow>
             response_task (step d ev w) = Some (current (step d ev w))) \<and>
         (\<forall>b. endpoint (step d ev w) = ResetStarting b \<longrightarrow>
             0 < current (step d ev w) \<and>
             response_task (step d ev w) = Some (current (step d ev w) - 1)) \<and>
         (\<forall>b. endpoint (step d ev w) = Starting b \<longrightarrow> current (step d ev w) = 0)"
  using assms
  by (cases ev)
     (auto simp add: step_def endpoint_defs task_defs Let_def
        split: endpoint.splits bool.splits sum.splits request.splits option.splits if_splits)

lemma reset_inv_step:
  assumes "reset_inv w"
  shows "reset_inv (step d ev w)"
proof -
  from assms have k_le: "response_task w = Some k \<Longrightarrow> k \<le> current w" for k
    unfolding reset_inv_def by blast
  from assms have k_quiet: "response_task w = Some k \<Longrightarrow> m < k \<Longrightarrow> quiet m w" for k m
    unfolding reset_inv_def by blast
  from assms have recv:
    "endpoint w = Receive \<or> endpoint w = ResetStopping \<longrightarrow> response_task w = Some (current w)"
    unfolding reset_inv_def by blast
  from assms have rst:
    "endpoint w = ResetStarting b \<Longrightarrow> 0 < current w \<and> response_task w = Some (current w - 1)" for b
    unfolding reset_inv_def by blast
  from assms have first: "endpoint w = Starting b \<Longrightarrow> current w = 0" for b
    unfolding reset_inv_def by blast
  from assms have raised: "transcript_task (sessions w m) = Raised \<Longrightarrow> \<not> connected w" for m
    unfolding reset_inv_def by blast
  from assms have fin: "Sent (Endpoint n) SessionResetDone \<in> set (trace w) \<Longrightarrow>
      \<exists>k. response_task w = Some k \<and> n \<le> k" for n
    unfolding reset_inv_def by blast
  have 1: "k \<le> current (step d ev w) \<and> (\<forall>m<k. quiet m (step d ev w))"
    if k: "response_task (step d ev w) = Some k" for k
  proof (cases "ev = Resume \<and> (endpoint w = Starting True \<and> connected w \<or> endpoint w = ResetStarting True)")
    case False
    with k have old: "response_task w = Some k" by (simp add: step_response_task)
    then have "k \<le> current w" by (rule k_le)
    moreover have "quiet m (step d ev w)" if "m < k" for m
    proof -
      from old that have "quiet m w" by (rule k_quiet)
      moreover from that \<open>k \<le> current w\<close> have "m < current w" by simp
      ultimately show ?thesis by (rule quiet_step)
    qed
    ultimately show ?thesis by (simp add: step_current)
  next
    case True
    with k have kc: "k = current w" by (simp add: step_response_task)
    from True have ev: "ev = Resume" by simp
    from True consider "endpoint w = Starting True" | "endpoint w = ResetStarting True" by blast
    then show ?thesis
    proof cases
      case 1
      then have "current w = 0" by (rule first)
      with kc ev 1 show ?thesis by (simp add: step_current)
    next
      case 2
      then have pos: "0 < current w" and old: "response_task w = Some (current w - 1)"
        using rst by blast+
      have "quiet m (step d ev w)" if "m < k" for m
      proof (cases "m = current w - 1")
        case True
        from old have "quiet (current w - 1) (reset_done w)"
        proof (rule reset_done_quiet)
          show "current w - 1 \<noteq> current w" using pos by simp
          show "transcript_task (sessions w (current w - 1)) = Raised \<longrightarrow> \<not> connected w"
            using raised by blast
        qed
        with True ev 2 show ?thesis by (simp add: step_def)
      next
        case False
        with that kc have "m < current w - 1" by simp
        with old have "quiet m w" by (rule k_quiet)
        moreover from that kc have "m < current w" by simp
        ultimately show ?thesis by (rule quiet_step)
      qed
      with kc ev 2 show ?thesis by (simp add: step_current)
    qed
  qed
  have 4: "\<not> connected (step d ev w)" if "transcript_task (sessions (step d ev w) m) = Raised" for m
    using step_Raised [OF that] raised step_connected [of d ev w] by blast
  have 5: "\<exists>k. response_task (step d ev w) = Some k \<and> n \<le> k"
    if "Sent (Endpoint n) SessionResetDone \<in> set (trace (step d ev w))" for n
    using step_reset_done [OF that]
  proof
    assume "Sent (Endpoint n) SessionResetDone \<in> set (trace w)"
    then obtain k where "response_task w = Some k" "n \<le> k" using fin by blast
    with k_le [of k] show ?thesis by (auto simp add: step_response_task)
  next
    assume "ev = Resume \<and> endpoint w = ResetStarting True \<and> n = current w"
    then show ?thesis by (simp add: step_response_task)
  qed
  from assms have
    "(endpoint w = Receive \<or> endpoint w = ResetStopping \<longrightarrow>
        response_task w = Some (current w)) \<and>
     (\<forall>b. endpoint w = ResetStarting b \<longrightarrow>
        0 < current w \<and> response_task w = Some (current w - 1)) \<and>
     (\<forall>b. endpoint w = Starting b \<longrightarrow> current w = 0)"
    unfolding reset_inv_def by blast
  then have 3:
    "(endpoint (step d ev w) = Receive \<or> endpoint (step d ev w) = ResetStopping \<longrightarrow>
        response_task (step d ev w) = Some (current (step d ev w))) \<and>
     (\<forall>b. endpoint (step d ev w) = ResetStarting b \<longrightarrow>
        0 < current (step d ev w) \<and>
        response_task (step d ev w) = Some (current (step d ev w) - 1)) \<and>
     (\<forall>b. endpoint (step d ev w) = Starting b \<longrightarrow> current (step d ev w) = 0)"
    by (rule step_endpoint_task)
  from 1 3 4 5 show ?thesis
    unfolding reset_inv_def by blast
qed

subsection \<open>The trace across a reset\<close>

lemma reset_of_eq: "reset_of ob = Some n \<longleftrightarrow> ob = Sent (Endpoint n) SessionResetDone"
  by (cases ob rule: reset_of.cases) auto

lemma reset_clean_append:
  "reset_clean (tr @ xs) \<longleftrightarrow>
     reset_clean tr \<and> reset_clean xs \<and>
     (\<forall>n. Sent (Endpoint n) SessionResetDone \<in> set tr \<longrightarrow> \<not> list_ex (stale n) xs)"
proof (induction tr)
  case Nil
  then show ?case by simp
next
  case (Cons ob tr)
  show ?case
  proof (cases "reset_of ob")
    case None
    then have "ob \<noteq> Sent (Endpoint n) SessionResetDone" for n
      by (auto simp add: reset_of_eq [symmetric])
    with None Cons show ?thesis by auto
  next
    case (Some n)
    then have "ob = Sent (Endpoint n) SessionResetDone" by (simp add: reset_of_eq)
    with Cons show ?thesis by (auto simp add: list_ex_iff)
  qed
qed

lemma reset_clean_no_resets: "\<forall>ob\<in>set xs. reset_of ob = None \<Longrightarrow> reset_clean xs"
  by (induction xs) auto

lemma not_stale_no_pumps: "\<forall>ob\<in>set xs. pump_of ob = None \<Longrightarrow> \<not> list_ex (stale n) xs"
  by (auto simp add: list_ex_iff stale_def)

lemma trace_step_reset:
  assumes "endpoint w = ResetStarting True"
  shows "trace (step d Resume w) =
           trace w @ Started (current w) #
             (case response_task w of None \<Rightarrow> [] | Some m \<Rightarrow> [ResponsesCancelled m]) @
             (if connected w then [Sent (Endpoint (current w)) SessionResetDone] else [])"
  using assms
  by (simp add: step_def reset_done_def fail_def final_stop_def send_json_def Let_def
      split: option.splits)

lemma trace_step_other:
  assumes "\<forall>m. ev \<noteq> TranscriptPump m \<and> ev \<noteq> AudioPump m"
      and "\<not> (ev = Resume \<and> endpoint w = ResetStarting True)"
  shows "\<exists>xs. trace (step d ev w) = trace w @ xs \<and>
           (\<forall>ob\<in>set xs. pump_of ob = None \<and> reset_of ob = None \<and>
                         (\<forall>n. ob \<noteq> ResponsesCancelled n))"
  using assms
  by (cases ev)
     (auto simp add: step_def endpoint_defs task_defs Let_def
        split: endpoint.splits bool.splits sum.splits request.splits option.splits if_splits)


lemma pump_sends_fresh:
  assumes inv: "reset_inv w"
    and alive: "connected w"
      "\<not> dead (transcript_task (sessions w m)) \<or> \<not> dead (audio_task (sessions w m))"
    and fin: "Sent (Endpoint n) SessionResetDone \<in> set (trace w)"
  shows "n \<le> m"
proof (rule ccontr)
  assume "\<not> n \<le> m"
  from inv fin obtain k where k: "response_task w = Some k" "n \<le> k"
    unfolding reset_inv_def by blast
  with \<open>\<not> n \<le> m\<close> have "m < k" by simp
  with inv k(1) have "quiet m w" unfolding reset_inv_def by blast
  with alive show False by (auto simp add: quiet_def)
qed

lemma list_ex_stale_map:
  "list_ex (stale n) (map (Sent (TranscriptTask m)) es) \<longleftrightarrow> es \<noteq> [] \<and> m < n"
  "list_ex (stale n) (map (Sent (AudioTask m)) es) \<longleftrightarrow> es \<noteq> [] \<and> m < n"
  by (cases es; auto simp add: list_ex_iff stale_def)+

lemma reset_clean_step:
  assumes inv: "reset_inv w" and clean: "reset_clean (trace w)"
  shows "reset_clean (trace (step d ev w))"
proof -
  consider (transcripts) m where "ev = TranscriptPump m"
    | (audio) m where "ev = AudioPump m"
    | (reset) "ev = Resume" "endpoint w = ResetStarting True"
    | (other) "\<forall>m. ev \<noteq> TranscriptPump m \<and> ev \<noteq> AudioPump m"
        "\<not> (ev = Resume \<and> endpoint w = ResetStarting True)"
    by blast
  then show ?thesis
  proof cases
    case transcripts
    let ?es = "fst (handle_transcripts (connected w) (sessions w m))"
    have "\<not> (?es \<noteq> [] \<and> m < n)" if "Sent (Endpoint n) SessionResetDone \<in> set (trace w)" for n
    proof
      assume a: "?es \<noteq> [] \<and> m < n"
      then have "connected w \<and> \<not> dead (transcript_task (sessions w m))"
        by (auto dest: handle_transcripts_sends)
      with inv that have "n \<le> m" by (auto intro: pump_sends_fresh)
      with a show False by simp
    qed
    with clean transcripts show ?thesis
      by (simp add: step_def trace_pumps reset_clean_append list_ex_stale_map
          reset_clean_no_resets)
  next
    case audio
    let ?es = "fst (handle_audio (connected w) (sessions w m))"
    have "\<not> (?es \<noteq> [] \<and> m < n)" if "Sent (Endpoint n) SessionResetDone \<in> set (trace w)" for n
    proof
      assume a: "?es \<noteq> [] \<and> m < n"
      then have "connected w \<and> \<not> dead (audio_task (sessions w m))"
        by (auto dest: handle_audio_sends)
      with inv that have "n \<le> m" by (auto intro: pump_sends_fresh)
      with a show False by simp
    qed
    with clean audio show ?thesis
      by (simp add: step_def trace_pumps reset_clean_append list_ex_stale_map
          reset_clean_no_resets)
  next
    case reset
    with clean show ?thesis
      by (auto simp add: trace_step_reset reset_clean_append stale_def split: option.splits)
  next
    case other
    then obtain xs where xs: "trace (step d ev w) = trace w @ xs"
      "\<forall>ob\<in>set xs. pump_of ob = None \<and> reset_of ob = None \<and> (\<forall>n. ob \<noteq> ResponsesCancelled n)"
      using trace_step_other by blast
    from xs(2) have "\<forall>ob\<in>set xs. reset_of ob = None" "\<forall>ob\<in>set xs. pump_of ob = None"
      by blast+
    then have "reset_clean xs" "\<not> list_ex (stale n) xs" for n
      by (simp_all add: reset_clean_no_resets not_stale_no_pumps)
    with clean xs(1) show ?thesis by (simp add: reset_clean_append)
  qed
qed

lemma precedes_Cons_same [simp]: "precedes a b (a # xs)"
  by simp

lemma cancel_order_step:
  assumes inv: "reset_inv w"
    and old: "precedes (ResponsesCancelled n) (Sent (Endpoint (Suc n)) SessionResetDone) (trace w)"
      "precedes (Started (Suc n)) (ResponsesCancelled n) (trace w)"
  shows "precedes (ResponsesCancelled n) (Sent (Endpoint (Suc n)) SessionResetDone)
           (trace (step d ev w)) \<and>
         precedes (Started (Suc n)) (ResponsesCancelled n) (trace (step d ev w))"
proof -
  consider (transcripts) m where "ev = TranscriptPump m"
    | (audio) m where "ev = AudioPump m"
    | (reset) "ev = Resume" "endpoint w = ResetStarting True"
    | (other) "\<forall>m. ev \<noteq> TranscriptPump m \<and> ev \<noteq> AudioPump m"
        "\<not> (ev = Resume \<and> endpoint w = ResetStarting True)"
    by blast
  then show ?thesis
  proof cases
    case transcripts
    with old show ?thesis
      by (auto simp add: step_def trace_pumps precedes_append intro!: precedes_notin)
  next
    case audio
    with old show ?thesis
      by (auto simp add: step_def trace_pumps precedes_append intro!: precedes_notin)
  next
    case reset
    from inv reset(2) have "0 < current w" "response_task w = Some (current w - 1)"
      unfolding reset_inv_def by blast+
    with old reset show ?thesis
      by (auto simp add: trace_step_reset precedes_append)
  next
    case other
    then obtain xs where xs: "trace (step d ev w) = trace w @ xs"
      "\<forall>ob\<in>set xs. pump_of ob = None \<and> reset_of ob = None \<and> (\<forall>n. ob \<noteq> ResponsesCancelled n)"
      using trace_step_other by blast
    from xs(2) have "Sent (Endpoint (Suc n)) SessionResetDone \<notin> set xs"
      "ResponsesCancelled n \<notin> set xs"
      by auto
    then have "precedes (ResponsesCancelled n) (Sent (Endpoint (Suc n)) SessionResetDone) xs"
      "precedes (Started (Suc n)) (ResponsesCancelled n) xs"
      by (auto intro: precedes_notin)
    with old xs(1) show ?thesis by (simp add: precedes_append)
  qed
qed

lemma reset_run:
  assumes "reset_inv w" and "reset_clean (trace w)"
    and "\<forall>n. precedes (ResponsesCancelled n) (Sent (Endpoint (Suc n)) SessionResetDone) (trace w) \<and>
             precedes (Started (Suc n)) (ResponsesCancelled n) (trace w)"
  shows "reset_clean (trace (run d evs w)) \<and>
         (\<forall>n. precedes (ResponsesCancelled n) (Sent (Endpoint (Suc n)) SessionResetDone)
                 (trace (run d evs w)) \<and>
              precedes (Started (Suc n)) (ResponsesCancelled n) (trace (run d evs w)))"
  using assms
proof (induction evs arbitrary: w)
  case Nil
  then show ?case by simp
next
  case (Cons ev evs)
  have "reset_inv (step d ev w)"
    using Cons.prems(1) by (rule reset_inv_step)
  moreover have "reset_clean (trace (step d ev w))"
    using Cons.prems(1,2) by (rule reset_clean_step)
  moreover have "\<forall>n. precedes (ResponsesCancelled n) (Sent (Endpoint (Suc n)) SessionResetDone)
                 (trace (step d ev w)) \<and>
              precedes (Started (Suc n)) (ResponsesCancelled n) (trace (step d ev w))"
  proof
    fix n
    from Cons.prems(3) have
      "precedes (ResponsesCancelled n) (Sent (Endpoint (Suc n)) SessionResetDone) (trace w)"
      "precedes (Started (Suc n)) (ResponsesCancelled n) (trace w)"
      by blast+
    with Cons.prems(1) show
      "precedes (ResponsesCancelled n) (Sent (Endpoint (Suc n)) SessionResetDone)
         (trace (step d ev w)) \<and>
       precedes (Started (Suc n)) (ResponsesCancelled n) (trace (step d ev w))"
      by (rule cancel_order_step)
  qed
  ultimately show ?case
    using Cons.IH [of "step d ev w"] by simp
qed

lemma reset_inv_initial: "reset_inv voice_chat_endpoint"
  by (simp add: reset_inv_def voice_chat_endpoint_def VoiceChatSession_def start_begin_def)

text \<open>
  C1, as stated, fails. The reset branch awaits \<^verbatim>\<open>start()\<close> of the new session (line
  150) before it cancels the old response task (line 151). In this run the first
  session's pumps are suspended in their polls when the reset arrives; the new session's
  handshake completes and its receive loop puts an audio chunk on the new audio queue
  while the endpoint has not yet resumed: at that moment both old pumps are still
  suspended, not cancelled. The cancellation comes only when the endpoint resumes.
\<close>

theorem cancel_after_enqueue_counterexample:
  "transcript_task (sessions (run (\<lambda>s. None)
       [Handshake 0, Resume, TranscriptPump 0, AudioPump 0,
        Frame (JObject [(''type'', JString ''session.reset'')]), Resume, Handshake 1,
        Response 1 \<lparr>server_content = Some
          \<lparr>input_transcription = None, output_transcription = None,
           model_turn = Some \<lparr>parts = Some [\<lparr>inline_data = Some \<lparr>data = Some [1, 2]\<rparr>\<rparr>]\<rparr>,
           turn_complete = None\<rparr>\<rparr>]
       voice_chat_endpoint) 0) = AtPoll \<and>
   audio_task (sessions (run (\<lambda>s. None)
       [Handshake 0, Resume, TranscriptPump 0, AudioPump 0,
        Frame (JObject [(''type'', JString ''session.reset'')]), Resume, Handshake 1,
        Response 1 \<lparr>server_content = Some
          \<lparr>input_transcription = None, output_transcription = None,
           model_turn = Some \<lparr>parts = Some [\<lparr>inline_data = Some \<lparr>data = Some [1, 2]\<rparr>\<rparr>]\<rparr>,
           turn_complete = None\<rparr>\<rparr>]
       voice_chat_endpoint) 0) = AtPoll \<and>
   audio_queue (gemini (sessions (run (\<lambda>s. None)
       [Handshake 0, Resume, TranscriptPump 0, AudioPump 0,
        Frame (JObject [(''type'', JString ''session.reset'')]), Resume, Handshake 1,
        Response 1 \<lparr>server_content = Some
          \<lparr>input_transcription = None, output_transcription = None,
           model_turn = Some \<lparr>parts = Some [\<lparr>inline_data = Some \<lparr>data = Some [1, 2]\<rparr>\<rparr>]\<rparr>,
           turn_complete = None\<rparr>\<rparr>]
       voice_chat_endpoint) 1)) = [Some [1, 2]] \<and>
   trace (run (\<lambda>s. None)
       [Handshake 0, Resume, TranscriptPump 0, AudioPump 0,
        Frame (JObject [(''type'', JString ''session.reset'')]), Resume, Handshake 1,
        Response 1 \<lparr>server_content = Some
          \<lparr>input_transcription = None, output_transcription = None,
           model_turn = Some \<lparr>parts = Some [\<lparr>inline_data = Some \<lparr>data = Some [1, 2]\<rparr>\<rparr>]\<rparr>,
           turn_complete = None\<rparr>\<rparr>,
        Resume]
       voice_chat_endpoint) =
     [Started 0, Sent (Endpoint 0) SessionReady, Put 1, Started 1, ResponsesCancelled 0,
      Sent (Endpoint 1) SessionResetDone] \<and>
   \<not> precedes (ResponsesCancelled 0) (Put 1)
     [Started 0, Sent (Endpoint 0) SessionReady, Put 1, Started 1, ResponsesCancelled 0,
      Sent (Endpoint 1) SessionResetDone]"
  by (simp add: eval_defs inline_audio.simps)

text \<open>
  C1, amended. In any run, for every reset: the old response task is cancelled after
  \<^verbatim>\<open>start()\<close> of the new session has returned and before \<^verbatim>\<open>session.reset.done\<close> is
  sent for the new session; and after a \<^verbatim>\<open>session.reset.done\<close> sent for a session, no
  client event is sent by a pump of any older session. (The pumps of a session read the
  queues of that session's own object only.)
\<close>

theorem reset_cancels_old_pumps:
  "reset_clean (trace (run d evs voice_chat_endpoint)) \<and>
   precedes (ResponsesCancelled n) (Sent (Endpoint (Suc n)) SessionResetDone)
     (trace (run d evs voice_chat_endpoint)) \<and>
   precedes (Started (Suc n)) (ResponsesCancelled n) (trace (run d evs voice_chat_endpoint))"
proof -
  have "reset_clean (trace voice_chat_endpoint)"
    and "\<forall>n. precedes (ResponsesCancelled n) (Sent (Endpoint (Suc n)) SessionResetDone)
               (trace voice_chat_endpoint) \<and>
             precedes (Started (Suc n)) (ResponsesCancelled n) (trace voice_chat_endpoint)"
    by (simp_all add: voice_chat_endpoint_def)
  with reset_inv_initial show ?thesis
    using reset_run [of voice_chat_endpoint d evs] by blast
qed

text \<open>
  A run with a reset: the old audio pump, resumed after the reset, sends nothing, and the
  new one delivers the new session's turn. A trace with an old pump's event after the
  reset would not pass.
\<close>

theorem reset_cancels_old_pumps_witness:
  "trace (run (\<lambda>s. None)
       [Handshake 0, Resume, AudioPump 0,
        Frame (JObject [(''type'', JString ''session.reset'')]), Resume, Handshake 1, Resume,
        AudioPump 0, TranscriptPump 0,
        Response 1 \<lparr>server_content = Some
          \<lparr>input_transcription = None, output_transcription = None,
           model_turn = Some \<lparr>parts = Some [\<lparr>inline_data = Some \<lparr>data = Some [1, 2]\<rparr>\<rparr>]\<rparr>,
           turn_complete = Some True\<rparr>\<rparr>,
        AudioPump 1, AudioPump 1, AudioPump 1, AudioPump 1]
       voice_chat_endpoint) =
     [Started 0, Sent (Endpoint 0) SessionReady, Started 1, ResponsesCancelled 0,
      Sent (Endpoint 1) SessionResetDone, Put 1, Sent (AudioTask 1) (AudioDelta [1, 2]),
      Sent (AudioTask 1) AudioDone] \<and>
   reset_clean
     [Started 0, Sent (Endpoint 0) SessionReady, Started 1, ResponsesCancelled 0,
      Sent (Endpoint 1) SessionResetDone, Put 1, Sent (AudioTask 1) (AudioDelta [1, 2]),
      Sent (AudioTask 1) AudioDone] \<and>
   \<not> reset_clean
     [Sent (Endpoint 1) SessionResetDone, Sent (AudioTask 0) AudioDone]"
proof -
  let ?evs = "[Handshake 0, Resume, AudioPump 0,
        Frame (JObject [(''type'', JString ''session.reset'')]), Resume, Handshake 1, Resume,
        AudioPump 0, TranscriptPump 0,
        Response 1 \<lparr>server_content = Some
          \<lparr>input_transcription = None, output_transcription = None,
           model_turn = Some \<lparr>parts = Some [\<lparr>inline_data = Some \<lparr>data = Some [1, 2]\<rparr>\<rparr>]\<rparr>,
           turn_complete = Some True\<rparr>\<rparr>,
        AudioPump 1, AudioPump 1, AudioPump 1, AudioPump 1]"
  have t: "trace (run (\<lambda>s. None) ?evs voice_chat_endpoint) =
     [Started 0, Sent (Endpoint 0) SessionReady, Started 1, ResponsesCancelled 0,
      Sent (Endpoint 1) SessionResetDone, Put 1, Sent (AudioTask 1) (AudioDelta [1, 2]),
      Sent (AudioTask 1) AudioDone]"
    by (simp add: eval_defs)
  have "\<not> reset_clean [Sent (Endpoint 1) SessionResetDone, Sent (AudioTask 0) AudioDone]"
    by (simp add: stale_def)
  with t reset_cancels_old_pumps [of "\<lambda>s. None" ?evs 0] show ?thesis by simp
qed

subsection \<open>audio.done without a completed turn\<close>

text \<open>
  C2 fails on the code. \<^verbatim>\<open>_handle_audio\<close> sends \<^verbatim>\<open>audio.done\<close> whenever
  \<^verbatim>\<open>get_audio_chunks\<close> returns, and that returns also when the running flag was
  cleared. Here the upstream sends no response at all, so no sentinel is ever enqueued
  or dequeued; the client resets the session while the audio pump polls; the pump's poll
  times out, its loop sees the cleared flag, and \<^verbatim>\<open>audio.done\<close> is sent to the open
  socket, before \<^verbatim>\<open>session.reset.done\<close>. In the last run the upstream completes one
  turn before the reset: one sentinel is dequeued and two \<^verbatim>\<open>audio.done\<close> are sent.
\<close>

theorem audio_done_without_sentinel:
  "trace (run d
       [Handshake 0, Resume, AudioPump 0,
        Frame (JObject [(''type'', JString ''session.reset'')]), AudioPump 0]
       voice_chat_endpoint) =
     [Started 0, Sent (Endpoint 0) SessionReady, Sent (AudioTask 0) AudioDone] \<and>
   sent (trace (run d
       [Handshake 0, Resume, AudioPump 0,
        Frame (JObject [(''type'', JString ''session.reset'')]), AudioPump 0,
        Resume, Handshake 1, Resume]
       voice_chat_endpoint)) = [SessionReady, AudioDone, SessionResetDone] \<and>
   sent (trace (run d
       [Handshake 0, Resume,
        Response 0 \<lparr>server_content = Some
          \<lparr>input_transcription = None, output_transcription = None,
           model_turn = Some \<lparr>parts = Some [\<lparr>inline_data = Some \<lparr>data = Some [1, 2]\<rparr>\<rparr>]\<rparr>,
           turn_complete = Some True\<rparr>\<rparr>,
        AudioPump 0, AudioPump 0, AudioPump 0, AudioPump 0, AudioPump 0,
        Frame (JObject [(''type'', JString ''session.reset'')]), AudioPump 0,
        Resume, Handshake 1, Resume]
       voice_chat_endpoint)) =
     [SessionReady, AudioDelta [1, 2], AudioDone, AudioDone, SessionResetDone]"
  by (simp add: eval_defs)

subsection \<open>Payloads that end the session\<close>

text \<open>
  What the endpoint does ignore: a frame that is not JSON, and an object whose
  \<^verbatim>\<open>type\<close> is neither of the two handled tags.
\<close>

lemma undecodable_and_unrecognized_ignored:
  "step d BadFrame w = w"
  "get kvs ''type'' (JString '''') \<noteq> JString ''input_audio_buffer.append'' \<Longrightarrow>
   get kvs ''type'' (JString '''') \<noteq> JString ''session.reset'' \<Longrightarrow>
   step d (Frame (JObject kvs)) w = w"
  by (simp_all add: step_def on_message_def dispatch_def Let_def)

text \<open>
  C5 fails on the code. Only \<^verbatim>\<open>JSONDecodeError\<close> is caught inside the loop. A frame
  that is valid JSON but not an object (here \<^verbatim>\<open>[]\<close>) raises in \<^verbatim>\<open>message.get\<close>; an
  append whose \<^verbatim>\<open>delta\<close> is not a string, or a string that \<^verbatim>\<open>b64decode\<close> rejects,
  raises in \<^verbatim>\<open>send_audio\<close>. Each exception reaches the outer handler: an error event
  is sent, the loop is left and the \<^verbatim>\<open>finally\<close> block stops the session.
\<close>

theorem malformed_frame_ends_session:
  "endpoint (run d [Handshake 0, Resume, Frame (JArray [])] voice_chat_endpoint) = Stopping \<and>
   sent (trace (run d [Handshake 0, Resume, Frame (JArray [])] voice_chat_endpoint)) =
     [SessionReady, ErrorEvent AttributeError] \<and>
   endpoint (run d [Handshake 0, Resume,
       Frame (JObject [(''type'', JString ''input_audio_buffer.append''), (''delta'', JNumber 5)])]
     voice_chat_endpoint) = Stopping \<and>
   sent (trace (run d [Handshake 0, Resume,
       Frame (JObject [(''type'', JString ''input_audio_buffer.append''), (''delta'', JNumber 5)])]
     voice_chat_endpoint)) = [SessionReady, ErrorEvent TypeError] \<and>
   endpoint (run (\<lambda>s. if s = ''A'' then None else Some []) [Handshake 0, Resume,
       Frame (JObject [(''type'', JString ''input_audio_buffer.append''), (''delta'', JString ''A'')])]
     voice_chat_endpoint) = Stopping \<and>
   sent (trace (run (\<lambda>s. if s = ''A'' then None else Some []) [Handshake 0, Resume,
       Frame (JObject [(''type'', JString ''input_audio_buffer.append''), (''delta'', JString ''A'')])]
     voice_chat_endpoint)) = [SessionReady, ErrorEvent DecodeError]"
  by (simp add: eval_defs)

end
